theory Spec2Isabelle
  imports Complex_Main "HOL-Library.Word" "HOL-Library.Monad_Syntax"
begin

section \<open>Python and numpy primitives used by SatTrakerBetaV5.py\<close>

text \<open>
  Python floats are modelled as exact reals: rounding is not part of the model. The
  places where the floating-point or machine-integer behaviour decides the control flow
  are written out: division by zero inside numpy (\<open>np_div\<close>), the 8-bit wrap-around of
  \<open>astype(np.int8)\<close> (\<open>8 word\<close>), and the exceptions of \<open>math.acos\<close> and of Python's
  float division (\<open>py_error\<close>).
\<close>

datatype py_error = ValueError | ZeroDivisionError | NameError | AttributeError

definition py_trunc :: "real \<Rightarrow> int" where
  \<comment> \<open>\<open>math.trunc(x)\<close> and \<open>int(x)\<close> on a float: rounding towards zero.\<close>
  "py_trunc x = (if 0 \<le> x then \<lfloor>x\<rfloor> else \<lceil>x\<rceil>)"

definition degrees :: "real \<Rightarrow> real" where
  "degrees x = x * 180 / pi"

definition radians :: "real \<Rightarrow> real" where
  "radians x = x * pi / 180"

definition py_slice :: "int \<Rightarrow> int \<Rightarrow> 'a list \<Rightarrow> 'a list" where
  \<comment> \<open>\<open>xs[a:b]\<close>: a negative bound counts from the end, every bound is clipped to the list.\<close>
  "py_slice a b xs =
     (let n = int (length xs);
          a' = (if a < 0 then max (a + n) 0 else min a n);
          b' = (if b < 0 then max (b + n) 0 else min b n)
      in take (nat (b' - a')) (drop (nat a') xs))"


section \<open>Coordinate codec: decimal degrees and sexagesimal fields\<close>

record sexagesimal =
  sx_d :: int
  sx_m :: int
  sx_s :: real

definition alt_dms :: "real \<Rightarrow> sexagesimal" where
  \<comment> \<open>\<open>rad_to_sexagesimal_alt\<close>, lines 989-991 (\<open>alt_d\<close>, \<open>alt_m\<close>, \<open>alt_s\<close>), and
      \<open>rad_to_sexagesimal_ra\<close>, lines 1000-1002 (\<open>dec_d\<close>, \<open>dec_m\<close>, \<open>dec_s\<close>).\<close>
  "alt_dms altdeg =
     (let alt_d = py_trunc altdeg;
          alt_m = py_trunc ((\<bar>altdeg\<bar> - \<bar>of_int alt_d\<bar>) * 60);
          alt_s = (((\<bar>altdeg\<bar> - \<bar>of_int alt_d\<bar>) * 60) - \<bar>of_int alt_m\<bar>) * 60
      in \<lparr>sx_d = alt_d, sx_m = alt_m, sx_s = alt_s\<rparr>)"

definition az_dms :: "real \<Rightarrow> sexagesimal" where
  \<comment> \<open>\<open>rad_to_sexagesimal_alt\<close>, lines 985-987 (\<open>az_d\<close>, \<open>az_m\<close>, \<open>az_s\<close>), and
      \<open>rad_to_sexagesimal_ra\<close>, lines 996-998 (\<open>ra_h\<close>, \<open>ra_m\<close>, \<open>ra_s\<close>): no absolute values.\<close>
  "az_dms azdeg =
     (let az_d = py_trunc azdeg;
          az_m = py_trunc ((azdeg - of_int az_d) * 60);
          az_s = (((azdeg - of_int az_d) * 60) - of_int az_m) * 60
      in \<lparr>sx_d = az_d, sx_m = az_m, sx_s = az_s\<rparr>)"

definition rad_to_sexagesimal_alt :: "real \<Rightarrow> real \<Rightarrow> sexagesimal \<times> sexagesimal" where
  \<comment> \<open>From \<open>self.radaz\<close> and \<open>self.radalt\<close> to the azimuth fields and the altitude fields.\<close>
  "rad_to_sexagesimal_alt radaz radalt = (az_dms (degrees radaz), alt_dms (degrees radalt))"

definition rad_to_sexagesimal_ra :: "real \<Rightarrow> real \<Rightarrow> sexagesimal \<times> sexagesimal" where
  \<comment> \<open>From \<open>self.radra\<close> and \<open>self.raddec\<close> to the hour fields and the declination fields.\<close>
  "rad_to_sexagesimal_ra radra raddec = (az_dms (degrees radra / 15), alt_dms (degrees raddec))"

definition respdegrees :: "int \<Rightarrow> int \<Rightarrow> int \<Rightarrow> real" where
  \<comment> \<open>\<open>read_to_hash\<close>, lines 900-904: \<open>deg\<close>, \<open>min\<close> and \<open>sec\<close> are the integers parsed from
      the response text (\<open>int(resp[0:3])\<close>, \<open>int(resp[3:5])\<close>, \<open>int(resp[6:8])\<close>).\<close>
  "respdegrees deg mn sec = (((of_int sec / 60) + of_int mn) / 60) + of_int deg"

definition resphours :: "int \<Rightarrow> int \<Rightarrow> int \<Rightarrow> real" where
  \<comment> \<open>\<open>read_to_hash\<close>, lines 906-910.\<close>
  "resphours hr mn sec = ((((of_int sec / 60) + of_int mn) / 60) + of_int hr) * 15"

definition sexagesimal_roundtrip :: "real \<Rightarrow> real" where
  \<comment> \<open>The degree value \<open>v\<close> encoded as the goto command carries it
      (\<open>str(alt_d)\<close>, \<open>str(alt_m)\<close>, \<open>str(int(alt_s))\<close>, lines 394 and 606), and these
      three integer fields decoded as \<open>read_to_hash\<close> decodes a response.\<close>
  "sexagesimal_roundtrip v =
     (let e = alt_dms v in respdegrees (sx_d e) (sx_m e) (py_trunc (sx_s e)))"


section \<open>Target locator: videotrak.get_x_y\<close>

text \<open>
  The frame is the grey image \<open>img\<close> after \<open>cv2.cvtColor\<close> and CLAHE (lines 53-56): a
  list of rows of 8-bit pixels. The template \<open>imageroi\<close> is a numpy array that is
  \<open>uint8\<close> when it was cut out of a frame (line 1232) or copied from the threshold image
  (line 156), and \<open>float64\<close> after a blend (line 119). Elementwise numpy operations are
  defined on arrays of the same shape and raise otherwise (numpy would also stretch an
  axis of length one; a frame with a single row or column is not modelled).

  The wall clock of the search (\<open>searchend = time.time() + 0.2\<close>) is the field
  \<open>clock\<close>: the number of later tests \<open>time.time() > searchend\<close> that still find the
  deadline ahead. Each test uses one up; at zero the deadline has passed, and stays passed.
\<close>

type_synonym u8img = "8 word list list"

datatype ndarray = U8 u8img | F64 "real list list"

datatype np_float = Fin real | PInf | NInf | NaN

definition np_div :: "real \<Rightarrow> real \<Rightarrow> np_float" where
  \<comment> \<open>Line 91: the division of two numpy scalars. A zero divisor gives an infinity or
      \<open>nan\<close> and a warning, not an exception.\<close>
  "np_div a b =
     (if b = 0 then (if 0 < a then PInf else if a < 0 then NInf else NaN)
      else Fin (a / b))"

fun np_times100 :: "np_float \<Rightarrow> np_float" where
  \<comment> \<open>Line 91: \<open>* 100\<close>.\<close>
  "np_times100 (Fin a) = Fin (a * 100)"
| "np_times100 PInf = PInf"
| "np_times100 NInf = NInf"
| "np_times100 NaN = NaN"

fun np_less :: "np_float \<Rightarrow> np_float \<Rightarrow> bool" where
  \<comment> \<open>The comparison \<open><\<close> of lines 93 and 112: false whenever a side is \<open>nan\<close>.\<close>
  "np_less (Fin a) (Fin b) = (a < b)"
| "np_less (Fin a) PInf = True"
| "np_less NInf (Fin b) = True"
| "np_less NInf PInf = True"
| "np_less _ _ = False"

definition crop :: "'a list list \<Rightarrow> int \<Rightarrow> int \<Rightarrow> int \<Rightarrow> int \<Rightarrow> 'a list list" where
  \<comment> \<open>\<open>img[y1:y2, x1:x2]\<close>, lines 84 and 118.\<close>
  "crop img y1 y2 x1 x2 = map (py_slice x1 x2) (py_slice y1 y2 img)"

definition shape :: "'a list list \<Rightarrow> int \<times> int" where
  \<comment> \<open>\<open>a.shape[:2]\<close>, lines 58-59: rows, then columns.\<close>
  "shape a = (int (length a), (case a of [] \<Rightarrow> 0 | r # _ \<Rightarrow> int (length r)))"

definition np_shape :: "ndarray \<Rightarrow> int \<times> int" where
  "np_shape a = (case a of U8 m \<Rightarrow> shape m | F64 m \<Rightarrow> shape m)"

definition same_shape :: "'a list list \<Rightarrow> 'b list list \<Rightarrow> bool" where
  "same_shape a b = (map length a = map length b)"

definition astype_int8 :: "ndarray \<Rightarrow> 8 word list list" where
  \<comment> \<open>Lines 86-87, \<open>astype(np.int8)\<close>: a \<open>uint8\<close> pixel keeps its eight bits (200 becomes
      \<open>-56\<close>); a float is truncated and its low eight bits are kept, as numpy does on x86-64.\<close>
  "astype_int8 a =
     (case a of U8 m \<Rightarrow> m | F64 m \<Rightarrow> map (map (\<lambda>v. word_of_int (py_trunc v))) m)"

definition astype_float :: "ndarray \<Rightarrow> real list list" where
  \<comment> \<open>The pixel values as numbers, as \<open>imageroi * 0.9\<close> and \<open>np.sum(imageroi)\<close> read them.\<close>
  "astype_float a = (case a of U8 m \<Rightarrow> map (map (\<lambda>p. of_int (uint p))) m | F64 m \<Rightarrow> m)"

definition np_absolute :: "8 word \<Rightarrow> 8 word" where
  \<comment> \<open>Line 89 on an \<open>int8\<close> element: the absolute value of \<open>-128\<close> wraps to \<open>-128\<close>.\<close>
  "np_absolute d = (if sint d < 0 then - d else d)"

definition np_sum_int8 :: "8 word list list \<Rightarrow> int" where
  \<comment> \<open>Line 90: \<open>np.sum\<close> of an \<open>int8\<close> array adds the signed elements in 64 bits.\<close>
  "np_sum_int8 m = sum_list (map (\<lambda>r. sum_list (map sint r)) m)"

definition np_sum :: "ndarray \<Rightarrow> real" where
  \<comment> \<open>Line 91, \<open>np.sum(imageroi)\<close>.\<close>
  "np_sum a = sum_list (map sum_list (astype_float a))"

definition roi_diff :: "u8img \<Rightarrow> ndarray \<Rightarrow> py_error + np_float" where
  \<comment> \<open>Lines 86-91: the score \<open>imagediff\<close> of one candidate window \<open>imagecomp\<close>.\<close>
  "roi_diff imagecomp imageroi =
     (let imagecompforsub = imagecomp;
          imageroiforsub = astype_int8 imageroi
      in if \<not> same_shape imagecompforsub imageroiforsub then Inl ValueError
         else
           (let imagediff = map2 (map2 (-)) imagecompforsub imageroiforsub;
                imagediff = map (map np_absolute) imagediff;
                imagediff = np_sum_int8 imagediff
            in Inr (np_times100 (np_div (of_int imagediff) (np_sum imageroi)))))"

definition blend :: "ndarray \<Rightarrow> u8img \<Rightarrow> py_error + ndarray" where
  \<comment> \<open>Line 119: \<open>(imageroi * 0.9) + (learnimg * 0.1)\<close>.\<close>
  "blend imageroi learnimg =
     (if \<not> same_shape (astype_float imageroi) learnimg then Inl ValueError
      else Inr (F64 (map2 (map2 (+))
                  (map (map (\<lambda>v. v * (9 / 10))) (astype_float imageroi))
                  (map (map (\<lambda>p. of_int (uint p) * (1 / 10))) learnimg))))"

text \<open>The variables of the search, lines 62-63 and 95-96, and its clock.\<close>

record search =
  finalroidiff :: np_float
  difflowered :: bool
  searchxy2 :: "(int \<times> int) option"
  clock :: nat

definition clamp_check :: "int \<Rightarrow> int \<Rightarrow> int" where
  \<comment> \<open>Lines 75-78 for \<open>xcheck\<close> and 79-82 for \<open>ycheck\<close>; \<open>hi\<close> is \<open>origwidth - roiwidth\<close> or
      \<open>origheight - roiheight\<close>.\<close>
  "clamp_check c hi = (if c < 0 then 0 else if c > hi then hi else c)"

fun scan_x :: "u8img \<Rightarrow> ndarray \<Rightarrow> int list \<Rightarrow> int \<Rightarrow> search \<Rightarrow> py_error + search" where
  \<comment> \<open>The loop \<open>for xcheck in range(...)\<close>, lines 73-100, over the values of \<open>xcheck\<close> still
      to come. The clamped \<open>ycheck\<close> stays assigned for the rest of the row.\<close>
  "scan_x img imageroi [] ycheck st = Inr st"
| "scan_x img imageroi (xcheck # xs) ycheck st =
     (let xcheck = clamp_check xcheck (snd (shape img) - snd (np_shape imageroi));
          ycheck = clamp_check ycheck (fst (shape img) - fst (np_shape imageroi));
          imagecomp = crop img ycheck (ycheck + fst (np_shape imageroi))
                        xcheck (xcheck + snd (np_shape imageroi))
      in case roi_diff imagecomp imageroi of
           Inl e \<Rightarrow> Inl e
         | Inr imagediff \<Rightarrow>
             (let st = (if np_less imagediff (finalroidiff st)
                        then st\<lparr>finalroidiff := imagediff,
                                searchxy2 := Some (xcheck, ycheck),
                                difflowered := True\<rparr>
                        else st)
              in if clock st = 0 then Inr st
                 else scan_x img imageroi xs ycheck (st\<lparr>clock := clock st - 1\<rparr>)))"

fun scan_y :: "u8img \<Rightarrow> ndarray \<Rightarrow> int list \<Rightarrow> int list \<Rightarrow> search \<Rightarrow> py_error + search" where
  \<comment> \<open>The loop \<open>for ycheck in range(...)\<close>, lines 70-100; \<open>xr\<close> is the range of \<open>xcheck\<close>.\<close>
  "scan_y img imageroi [] xr st = Inr st"
| "scan_y img imageroi (ycheck # ys) xr st =
     (if clock st = 0 then Inr st
      else case scan_x img imageroi xr ycheck (st\<lparr>clock := clock st - 1\<rparr>) of
             Inl e \<Rightarrow> Inl e
           | Inr st' \<Rightarrow> scan_y img imageroi ys xr st')"

lemma scan_x_clock: "scan_x img imageroi xs ycheck st = Inr st' \<Longrightarrow> clock st' \<le> clock st"
proof (induction xs arbitrary: ycheck st)
  case Nil
  then show ?case by simp
next
  case (Cons x xs)
  then show ?case
    by (fastforce simp: Let_def split: sum.splits if_splits)
qed

lemma scan_y_clock: "scan_y img imageroi ys xr st = Inr st' \<Longrightarrow> clock st' \<le> clock st"
proof (induction ys arbitrary: st)
  case Nil
  then show ?case by simp
next
  case (Cons y ys)
  then show ?case
    by (fastforce split: sum.splits if_splits dest: scan_x_clock)
qed

function search_loop :: "u8img \<Rightarrow> ndarray \<Rightarrow> int \<Rightarrow> int \<Rightarrow> search \<Rightarrow> py_error + search" where
  \<comment> \<open>The loop \<open>while keepgoing is True\<close>, lines 69-109. \<open>searchx1\<close> and \<open>searchy1\<close> are not
      assigned inside the loop: every scan is around the last known position.\<close>
  "search_loop img imageroi searchx1 searchy1 st =
     (case scan_y img imageroi [searchy1 - 15 .. searchy1 + 14] [searchx1 - 15 .. searchx1 + 14] st of
        Inl e \<Rightarrow> Inl e
      | Inr st1 \<Rightarrow>
          (let keepgoing = difflowered st1;
               st2 = st1\<lparr>difflowered := False\<rparr>
           in if clock st2 = 0 then Inr st2
              else if keepgoing
                   then search_loop img imageroi searchx1 searchy1 (st2\<lparr>clock := clock st2 - 1\<rparr>)
                   else Inr (st2\<lparr>clock := clock st2 - 1\<rparr>)))"
  by pat_completeness auto
termination
proof (relation "measure (\<lambda>(img, imageroi, searchx1, searchy1, st). clock st)")
  show "wf (measure (\<lambda>(img, imageroi, searchx1, searchy1, st). clock st))"
    by simp
next
  fix img imageroi searchx1 searchy1 st st1 keepgoing st2
  assume scan: "scan_y img imageroi [searchy1 - 15 .. searchy1 + 14] [searchx1 - 15 .. searchx1 + 14] st = Inr st1"
    and st2: "st2 = st1\<lparr>difflowered := False\<rparr>" and pos: "clock st2 \<noteq> 0"
  have "clock st1 \<le> clock st"
    using scan by (rule scan_y_clock)
  with st2 pos show "((img, imageroi, searchx1, searchy1, st2\<lparr>clock := clock st2 - 1\<rparr>),
              (img, imageroi, searchx1, searchy1, st)) \<in> measure (\<lambda>(img, imageroi, searchx1, searchy1, st). clock st)"
    by simp
qed

declare search_loop.simps [simp del]

type_synonym roibox = "(int \<times> int) \<times> (int \<times> int)"

definition get_x_y_features :: "nat \<Rightarrow> u8img \<Rightarrow> roibox \<Rightarrow> ndarray \<Rightarrow> py_error + (roibox \<times> ndarray \<times> bool)" where
  \<comment> \<open>Lines 58-126 for the tracking type \<open>Features\<close>; \<open>deadline\<close> is the clock at line 61.
      \<open>searchx2\<close> and \<open>searchy2\<close> are unbound until a score is below the minimum so far.\<close>
  "get_x_y_features deadline img roibox imageroi =
     (let roiheight = fst (np_shape imageroi);
          roiwidth = snd (np_shape imageroi);
          searchx1 = fst (fst roibox);
          searchy1 = snd (fst roibox)
      in case search_loop img imageroi searchx1 searchy1
                \<lparr>finalroidiff = PInf, difflowered = False, searchxy2 = None, clock = deadline\<rparr> of
           Inl e \<Rightarrow> Inl e
         | Inr st \<Rightarrow>
             if np_less (finalroidiff st) (Fin 20) then
               (case searchxy2 st of
                  None \<Rightarrow> Inl NameError
                | Some (searchx1last, searchy1last) \<Rightarrow>
                    (let learnimg = crop img searchy1last (searchy1last + roiheight)
                                      searchx1last (searchx1last + roiwidth)
                     in case blend imageroi learnimg of
                          Inl e \<Rightarrow> Inl e
                        | Inr imageroi' \<Rightarrow>
                            Inr (((searchx1last, searchy1last),
                                  (searchx1last + roiwidth, searchy1last + roiheight)),
                                 imageroi', True)))
             else Inr (roibox, imageroi, False))"


text \<open>What OpenCV computes in the brightness strategy, lines 128-137.\<close>

record cv2_result =
  thresh :: u8img
  m00 :: real
  m10 :: real
  m01 :: real

definition get_x_y_bright :: "cv2_result \<Rightarrow> roibox \<Rightarrow> ndarray \<Rightarrow> roibox \<times> ndarray \<times> bool" where
  \<comment> \<open>Lines 127-156. \<open>cv\<close> is what OpenCV returns for this frame and ROI: the threshold
      image of the blurred ROI (line 130) and the moments of line 137. A zero \<open>m00\<close> makes
      line 139 raise \<open>ZeroDivisionError\<close>, which the \<open>except\<close> of line 143 turns into
      not-found; then \<open>cX\<close> stays empty and the ROI is not moved.\<close>
  "get_x_y_bright cv roibox imageroi =
     (let roiheight = fst (np_shape imageroi);
          roiwidth = snd (np_shape imageroi);
          searchx1 = fst (fst roibox);
          searchy1 = snd (fst roibox);
          found = (m00 cv \<noteq> 0);
          cX = py_trunc (m10 cv / m00 cv);
          cY = py_trunc (m01 cv / m00 cv);
          cXdiff = (of_int roiwidth / 2) - of_int cX;
          cYdiff = (of_int roiheight / 2) - of_int cY;
          searchx1 = (if found
                      then (let s = py_trunc (of_int searchx1 - cXdiff) in if s < 0 then 0 else s)
                      else searchx1);
          searchy1 = (if found
                      then (let s = py_trunc (of_int searchy1 - cYdiff) in if s < 0 then 0 else s)
                      else searchy1)
      in (((searchx1, searchy1), (searchx1 + roiwidth, searchy1 + roiheight)),
          U8 (thresh cv), found))"

definition get_x_y ::
  "string \<Rightarrow> nat \<Rightarrow> cv2_result \<Rightarrow> bool \<Rightarrow> u8img \<Rightarrow> roibox \<Rightarrow> ndarray
   \<Rightarrow> py_error + (roibox \<times> ndarray \<times> bool)" where
  \<comment> \<open>\<open>videotrak.get_x_y\<close>: the result is \<open>roibox\<close>, \<open>imageroi\<close> and the new value of
      \<open>trackSettings.foundtarget\<close>. A tracking type that is neither string (the configuration
      file can hold any) runs neither branch.\<close>
  "get_x_y trackingtype deadline cv foundtarget img roibox imageroi =
     (if trackingtype = ''Features'' then get_x_y_features deadline img roibox imageroi
      else if trackingtype = ''Bright'' then Inr (get_x_y_bright cv roibox imageroi)
      else Inr (roibox, imageroi, foundtarget))"

definition roi_within :: "roibox \<Rightarrow> u8img \<Rightarrow> bool" where
  \<comment> \<open>The ROI lies inside the frame: \<open>0 \<le> x\<close>, \<open>x + roiwidth \<le> origwidth\<close>, \<open>0 \<le> y\<close>,
      \<open>y + roiheight \<le> origheight\<close>.\<close>
  "roi_within roibox img =
     (0 \<le> fst (fst roibox) \<and> fst (snd roibox) \<le> snd (shape img) \<and>
      0 \<le> snd (fst roibox) \<and> snd (snd roibox) \<le> fst (shape img))"

definition spec_score :: "u8img \<Rightarrow> u8img \<Rightarrow> real" where
  \<comment> \<open>The score as the specification words it: the summed absolute pixel difference of
      window and template, divided by the template's total intensity, as a percentage.\<close>
  "spec_score window template =
     of_int (sum_list (map sum_list (map2 (map2 (\<lambda>c t. \<bar>uint c - uint t\<bar>)) window template)))
       / of_int (sum_list (map (\<lambda>r. sum_list (map uint r)) template)) * 100"


section \<open>Tracking controller: buttons.sat_track\<close>

subsection \<open>Python's math module\<close>

definition py_acos :: "real \<Rightarrow> py_error + real" where
  \<comment> \<open>\<open>math.acos\<close> raises \<open>ValueError\<close> outside \<open>[-1, 1]\<close>.\<close>
  "py_acos x = (if - 1 \<le> x \<and> x \<le> 1 then Inr (arccos x) else Inl ValueError)"

definition py_div :: "real \<Rightarrow> real \<Rightarrow> py_error + real" where
  \<comment> \<open>Python's float division raises \<open>ZeroDivisionError\<close>.\<close>
  "py_div a b = (if b = 0 then Inl ZeroDivisionError else Inr (a / b))"

definition atan2 :: "real \<Rightarrow> real \<Rightarrow> real" where
  \<comment> \<open>\<open>math.atan2(y, x)\<close>, the angle of the point \<open>(x, y)\<close> in \<open>(-pi, pi]\<close>.\<close>
  "atan2 y x =
     (if 0 < x then arctan (y / x)
      else if x < 0 then (if 0 \<le> y then arctan (y / x) + pi else arctan (y / x) - pi)
      else if 0 < y then pi / 2
      else if y < 0 then - pi / 2
      else 0)"

subsection \<open>The mount's two transports and the controller's state\<close>

text \<open>
  The calls made on the ASCOM driver object \<open>self.tel\<close>, and the commands written to the
  serial port \<open>self.ser\<close> of an LX200. A serial command stands for its text: \<open>Set_Sz d m s\<close>
  for \<open>:Sz d*m:s#\<close> (and \<open>:Sa\<close>, \<open>:Sr\<close>, \<open>:Sd\<close> alike), \<open>Goto_MA\<close> for \<open>:MA#\<close>, \<open>Get_GA\<close>
  for \<open>:GA#\<close>, \<open>Rate_RC\<close> for \<open>:RC#\<close>, \<open>Move_Mn\<close> for \<open>:Mn#\<close>, \<open>Quit_Qn\<close> for \<open>:Qn#\<close>, and
  so on.
\<close>

datatype tel_cmd =
    MoveAxis nat real
  | SlewToAltAz real real
  | SlewToCoordinates real real
  | AbortSlew

datatype ser_cmd =
    Set_Sz int int int
  | Set_Sa int int int
  | Set_Sr int int int
  | Set_Sd int int int
  | Goto_MA
  | Goto_MS
  | Get_GA
  | Get_GZ
  | Get_GD
  | Get_GR
  | Rate_RC
  | Move_Mn
  | Move_Ms
  | Quit_Qn
  | Quit_Qs

text \<open>
  What \<open>self.sat\<close> holds after \<open>self.sat.compute(self.observer)\<close>, in radians.
\<close>

record ephem =
  sat_alt :: real
  sat_az :: real
  sat_ra :: real
  sat_dec :: real

text \<open>
  The world as one iteration of the loop reads it: the settings of \<open>trackSettings\<close> (other
  threads write them; one iteration sees one value of each), the target's pixel position
  and the time stamp \<open>dnow\<close> of its frame, the satellite at the time of the slew block
  (\<open>slew_sat\<close>) and one second later (\<open>slew_sat2\<close>), at the time of the cycle (\<open>sat_now\<close>)
  and one second later (\<open>sat_next\<close>), and the position properties of the ASCOM driver.
\<close>

record env =
  telescopetype :: string
  mounttype :: string
  objectfollow :: bool
  trackingsat :: bool
  mainviewX :: real
  mainviewY :: real
  imagescale :: real
  targetX :: real
  targetY :: real
  dnow :: real
  slew_sat :: ephem
  slew_sat2 :: ephem
  sat_now :: ephem
  sat_next :: ephem
  tel_Azimuth :: real
  tel_Altitude :: real
  tel_RightAscension :: real
  tel_Declination :: real

text \<open>
  The variables of \<open>sat_track\<close> and the attributes of the \<open>buttons\<close> object it uses. \<open>cycle_i\<close>
  is the local \<open>i\<close>; \<open>objectdec\<close> and \<open>diffinra\<close> are locals that one branch assigns and
  another reads, unbound (\<open>None\<close>) until then. \<open>tel_log\<close> and \<open>ser_log\<close> collect the calls
  and commands sent to the mount, in order. \<open>ser_in\<close> holds the responses the LX200 will
  give, each as the three integers \<open>read_to_hash\<close> parses; a query that finds it empty
  waits for ever (lines 1170-1171), which is the result \<open>None\<close>. Transport failures and
  attributes missing because the scope was never connected are not part of the model.
\<close>

record controller =
  firstslew :: bool
  altcorrect :: real
  azcorrect :: real
  deccorrect :: real
  racorrect :: real
  cycle_i :: int
  diffazlast :: real
  diffaltlast :: real
  diffralast :: real
  diffdeclast :: real
  lasttotaldiff :: real
  dlast :: real
  axis0rate :: real
  axis1rate :: real
  tel_log :: "tel_cmd list"
  ser_log :: "ser_cmd list"
  ser_in :: "(int \<times> int \<times> int) list"
  objectdec :: "real option"
  diffinra :: "real option"

definition tel_call :: "tel_cmd \<Rightarrow> controller \<Rightarrow> controller" where
  \<comment> \<open>A call of a method of \<open>self.tel\<close>.\<close>
  "tel_call cmd c = c\<lparr>tel_log := tel_log c @ [cmd]\<rparr>"

definition ser_write :: "ser_cmd list \<Rightarrow> controller \<Rightarrow> controller" where
  \<comment> \<open>\<open>self.ser.write\<close> of each command in turn.\<close>
  "ser_write cmds c = c\<lparr>ser_log := ser_log c @ cmds\<rparr>"

definition lx200_query :: "ser_cmd \<Rightarrow> controller \<Rightarrow> ((int \<times> int \<times> int) \<times> controller) option" where
  \<comment> \<open>The query is written, then the response is awaited and parsed (\<open>read_to_hash\<close>).\<close>
  "lx200_query q c =
     (case ser_in c of
        [] \<Rightarrow> None
      | r # rest \<Rightarrow> Some (r, c\<lparr>ser_log := ser_log c @ [q], ser_in := rest\<rparr>))"

definition LX200_alt_degrees :: "controller \<Rightarrow> (real \<times> controller) option" where
  \<comment> \<open>Lines 1167-1175; the result is \<open>self.telalt\<close>.\<close>
  "LX200_alt_degrees c =
     do { ((deg, mn, sec), c') \<leftarrow> lx200_query Get_GA c; Some (respdegrees deg mn sec, c') }"

definition LX200_dec_degrees :: "controller \<Rightarrow> (real \<times> controller) option" where
  \<comment> \<open>Lines 1177-1185; the result is \<open>self.teldec\<close>.\<close>
  "LX200_dec_degrees c =
     do { ((deg, mn, sec), c') \<leftarrow> lx200_query Get_GD c; Some (respdegrees deg mn sec, c') }"

definition LX200_az_degrees :: "controller \<Rightarrow> (real \<times> controller) option" where
  \<comment> \<open>Lines 1187-1195; the result is \<open>self.telaz\<close>.\<close>
  "LX200_az_degrees c =
     do { ((deg, mn, sec), c') \<leftarrow> lx200_query Get_GZ c; Some (respdegrees deg mn sec, c') }"

definition LX200_ra_degrees :: "controller \<Rightarrow> (real \<times> controller) option" where
  \<comment> \<open>Lines 1197-1205; the result is \<open>self.telra = float(self.resphours)*15\<close>.\<close>
  "LX200_ra_degrees c =
     do { ((hr, mn, sec), c') \<leftarrow> lx200_query Get_GR c; Some (resphours hr mn sec * 15, c') }"

definition clamp_rate :: "real \<Rightarrow> real \<Rightarrow> real" where
  \<comment> \<open>The two tests before every \<open>MoveAxis\<close>: lines 457-464, 482-489, 523-530, 559-566,
      688-695 and 737-744.\<close>
  "clamp_rate rate axisrate =
     (let rate = (if rate > axisrate then axisrate else rate);
          rate = (if rate < (- 1 * axisrate) then (- 1 * axisrate) else rate)
      in rate)"

definition goto_altaz :: "real \<Rightarrow> real \<Rightarrow> ser_cmd list" where
  \<comment> \<open>Lines 392-397 (604-609, 793-798): \<open>rad_to_sexagesimal_alt\<close> and the three writes.\<close>
  "goto_altaz radaz radalt =
     (let az = fst (rad_to_sexagesimal_alt radaz radalt);
          alt = snd (rad_to_sexagesimal_alt radaz radalt)
      in [Set_Sz (sx_d az) (sx_m az) (py_trunc (sx_s az)),
          Set_Sa (sx_d alt) (sx_m alt) (py_trunc (sx_s alt)),
          Goto_MA])"

definition goto_radec :: "real \<Rightarrow> real \<Rightarrow> ser_cmd list" where
  \<comment> \<open>Lines 405-410 (635-640, 837-842): \<open>rad_to_sexagesimal_ra\<close> and the three writes.\<close>
  "goto_radec radra raddec =
     (let ra = fst (rad_to_sexagesimal_ra radra raddec);
          dec = snd (rad_to_sexagesimal_ra radra raddec)
      in [Set_Sr (sx_d ra) (sx_m ra) (py_trunc (sx_s ra)),
          Set_Sd (sx_d dec) (sx_m dec) (py_trunc (sx_s dec)),
          Goto_MS])"

definition sataz_flip :: "real \<Rightarrow> real" where
  \<comment> \<open>Lines 387-390 (579-582, 753-756).\<close>
  "sataz_flip az =
     (let sataz = degrees az + 180;
          sataz = (if sataz > 360 then sataz - 360 else sataz)
      in radians sataz)"

subsection \<open>Pixel offset to sky delta\<close>

record polar =
  objectangle :: real
  objectangle2 :: real
  objectdistance :: real

definition object_polar :: "env \<Rightarrow> polar" where
  \<comment> \<open>Lines 665-669 (and 714-718, 765-769, 809-813). The argument of \<open>math.sqrt\<close> is never
      negative (lemma \<open>objectdistance_radicand_nonneg\<close>), so the line does not raise.\<close>
  "object_polar e =
     (let objectvertical = - 1 * ((targetY e - mainviewY e) * imagescale e);
          objecthorizontal = (targetX e - mainviewX e) * imagescale e
      in \<lparr>objectangle = degrees (atan2 objectvertical objecthorizontal) - 90,
          objectangle2 = degrees (atan2 objectvertical objecthorizontal),
          objectdistance =
            sqrt ((objecthorizontal\<^sup>2) + (objectvertical\<^sup>2)
                  - 2 * (objectvertical * objecthorizontal
                         * cos (radians (degrees (atan2 objectvertical objecthorizontal) - 90))))\<rparr>)"

definition law_of_cosines_alt :: "polar \<Rightarrow> real \<Rightarrow> py_error + real" where
  \<comment> \<open>Line 671 (720, 771, 815): the new altitude or declination, in degrees.\<close>
  "law_of_cosines_alt p alt =
     (case py_acos (cos (radians (objectdistance p)) * cos (radians (90 - alt))
                    + sin (radians (objectdistance p)) * sin (radians (90 - alt))
                      * cos (radians (objectangle p))) of
        Inl err \<Rightarrow> Inl err
      | Inr a \<Rightarrow> Inr (90 - degrees a))"

definition law_of_cosines_az :: "polar \<Rightarrow> real \<Rightarrow> real \<Rightarrow> py_error + real" where
  \<comment> \<open>Line 672 (721, 772, 816): the unsigned azimuth-like delta, in degrees.\<close>
  "law_of_cosines_az p alt objectalt =
     (case py_div (cos (radians (objectdistance p))
                   - cos (radians (90 - alt)) * cos (radians (90 - objectalt)))
                  (sin (radians (90 - alt)) * sin (radians (90 - objectalt))) of
        Inl err \<Rightarrow> Inl err
      | Inr q \<Rightarrow> (case py_acos q of Inl err \<Rightarrow> Inl err | Inr a \<Rightarrow> Inr (degrees a)))"

definition sky_delta :: "polar \<Rightarrow> real \<Rightarrow> py_error + (real \<times> real)" where
  \<comment> \<open>Lines 671-674 (720-723, 771-774): \<open>objectalt\<close> and the signed \<open>diffinaz\<close>.\<close>
  "sky_delta p alt =
     (case law_of_cosines_alt p alt of
        Inl err \<Rightarrow> Inl err
      | Inr objectalt \<Rightarrow>
          (case law_of_cosines_az p alt objectalt of
             Inl err \<Rightarrow> Inl err
           | Inr diffinaz \<Rightarrow>
               Inr (objectalt,
                    if \<bar>objectangle2 p\<bar> > 90 then - 1 * diffinaz else diffinaz)))"

subsection \<open>The initial slew, lines 376-493\<close>

lemma lx200_query_shorter:
  "lx200_query q c = Some (r, c') \<Longrightarrow> length (ser_in c') < length (ser_in c)"
  by (auto simp: lx200_query_def split: list.splits)

lemma LX200_alt_degrees_shorter:
  "LX200_alt_degrees c = Some (r, c') \<Longrightarrow> length (ser_in c') < length (ser_in c)"
  by (auto simp: LX200_alt_degrees_def dest: lx200_query_shorter split: bind_splits)

lemma LX200_az_degrees_shorter:
  "LX200_az_degrees c = Some (r, c') \<Longrightarrow> length (ser_in c') < length (ser_in c)"
  by (auto simp: LX200_az_degrees_def dest: lx200_query_shorter split: bind_splits)

function slew_poll :: "real \<Rightarrow> real \<Rightarrow> real \<Rightarrow> controller \<Rightarrow> controller option" where
  \<comment> \<open>The loop \<open>while totaldiff > 1\<close>, lines 426-435.\<close>
  "slew_poll radalt radaz totaldiff c =
     (if totaldiff > 1 then
        (case LX200_alt_degrees c of
           None \<Rightarrow> None
         | Some (x, c1) \<Rightarrow>
             (case LX200_alt_degrees c1 of
                None \<Rightarrow> None
              | Some (currentalt, c2) \<Rightarrow>
                  (case LX200_az_degrees c2 of
                     None \<Rightarrow> None
                   | Some (currentaz, c3) \<Rightarrow>
                       slew_poll radalt radaz
                         (sqrt ((degrees radalt - currentalt)\<^sup>2 + (degrees radaz - currentaz)\<^sup>2))
                         c3)))
      else Some c)"
  by pat_completeness auto

termination
proof (relation "measure (\<lambda>(radalt, radaz, totaldiff, c). length (ser_in c))")
  show "wf (measure (\<lambda>(radalt, radaz, totaldiff, c). length (ser_in c)))"
    by simp
next
  fix radalt radaz totaldiff :: real and c c1 c2 c3 :: controller
    and x currentalt currentaz :: real and x2 x2a x2b
  assume "LX200_alt_degrees c = Some x2" and "(x, c1) = x2"
    and "LX200_alt_degrees c1 = Some x2a" and "(currentalt, c2) = x2a"
    and "LX200_az_degrees c2 = Some x2b" and "(currentaz, c3) = x2b"
  then have "length (ser_in c3) < length (ser_in c)"
    using LX200_alt_degrees_shorter [of c x c1] LX200_alt_degrees_shorter [of c1 currentalt c2]
      LX200_az_degrees_shorter [of c2 currentaz c3]
    by auto
  then show "((radalt, radaz,
        sqrt ((degrees radalt - currentalt)\<^sup>2 + (degrees radaz - currentaz)\<^sup>2), c3),
       radalt, radaz, totaldiff, c)
      \<in> measure (\<lambda>(radalt, radaz, totaldiff, c). length (ser_in c))"
    by simp
qed

declare slew_poll.simps [simp del]

definition slew_lx200 :: "env \<Rightarrow> controller \<Rightarrow> controller option" where
  \<comment> \<open>Lines 385-435.\<close>
  "slew_lx200 e c =
     (let radalt = sat_alt (slew_sat e);
          radaz = (if mounttype e = ''AltAz'' then sataz_flip (sat_az (slew_sat e))
                   else sat_az (slew_sat e));
          c = (if mounttype e = ''AltAz'' then ser_write (goto_altaz radaz radalt) c else c);
          c = (if mounttype e = ''Eq''
               then ser_write (goto_radec (sat_ra (slew_sat e)) (sat_dec (slew_sat e))) c
               else c)
      in do {
           (x, c) \<leftarrow> LX200_alt_degrees c;
           (currentalt, c) \<leftarrow> LX200_alt_degrees c;
           (currentaz, c) \<leftarrow> LX200_az_degrees c;
           let altdiff = degrees radalt - currentalt;
               azdiff = degrees radaz - currentaz;
               totaldiff = sqrt (altdiff\<^sup>2 + azdiff\<^sup>2);
               c = c\<lparr>lasttotaldiff := totaldiff, dlast := dnow e\<rparr>
           in slew_poll radalt radaz totaldiff c
         })"

definition slew_ascom :: "env \<Rightarrow> controller \<Rightarrow> controller" where
  \<comment> \<open>Lines 437-492.\<close>
  "slew_ascom e c =
     (let c = c\<lparr>dlast := dnow e\<rparr>;
          c = (if mounttype e = ''AltAz'' \<and> trackingsat e then
                 (let radalt = sat_alt (slew_sat e);
                      radaz = sat_az (slew_sat e);
                      radalt2 = sat_alt (slew_sat2 e);
                      radaz2 = sat_az (slew_sat2 e);
                      azrate = degrees (radaz2 - radaz);
                      altrate = degrees (radalt2 - radalt);
                      c = tel_call (SlewToAltAz (degrees radaz2) (degrees radalt2)) c;
                      azrate = clamp_rate azrate (axis0rate c);
                      altrate = clamp_rate altrate (axis1rate c)
                  in tel_call (MoveAxis 1 altrate) (tel_call (MoveAxis 0 azrate) c))
               else c);
          c = (if mounttype e = ''Eq'' \<and> trackingsat e then
                 (let raddec = sat_dec (slew_sat e);
                      radra = sat_ra (slew_sat e);
                      raddec2 = sat_dec (slew_sat2 e);
                      radra2 = sat_ra (slew_sat2 e);
                      rarate = - 1 * (degrees (radra2 - radra)) * cos raddec2;
                      decrate = degrees (raddec2 - raddec);
                      c = tel_call (SlewToCoordinates (degrees radra2 / 15) (degrees raddec2)) c;
                      rarate = clamp_rate rarate (axis0rate c);
                      decrate = clamp_rate decrate (axis1rate c)
                  in tel_call (MoveAxis 1 decrate) (tel_call (MoveAxis 0 rarate) c))
               else c)
      in c)"

definition slew :: "env \<Rightarrow> controller \<Rightarrow> controller option" where
  \<comment> \<open>The body of \<open>if firstslew is True\<close>, lines 377-493.\<close>
  "slew e c =
     (let c = c\<lparr>diffazlast := 0, diffaltlast := 0, diffralast := 0, diffdeclast := 0,
                lasttotaldiff := 0\<rparr>
      in do {
           c \<leftarrow> (if telescopetype e = ''LX200'' then slew_lx200 e c else Some c);
           let c = c\<lparr>firstslew := False\<rparr>;
               c = (if telescopetype e = ''ASCOM'' then slew_ascom e c else c)
           in Some (c\<lparr>firstslew := False\<rparr>)
         })"

subsection \<open>Following the ephemeris only, lines 494-641\<close>

definition follow_ascom_altaz :: "env \<Rightarrow> controller \<Rightarrow> controller" where
  \<comment> \<open>Lines 505-536.\<close>
  "follow_ascom_altaz e c =
     (let radalt = sat_alt (sat_now e);
          radaz = sat_az (sat_now e);
          currentaz = tel_Azimuth e;
          currentalt = tel_Altitude e;
          diffaz = degrees radaz - currentaz;
          diffalt = degrees radalt - currentalt;
          radalt2 = sat_alt (sat_next e);
          radaz2 = sat_az (sat_next e);
          trueazrate = degrees (radaz2 - radaz);
          truealtrate = degrees (radalt2 - radalt);
          azrate = trueazrate + (diffaz * 0.75);
          altrate = truealtrate + (diffalt * 0.75);
          azrate = clamp_rate azrate (axis0rate c);
          altrate = clamp_rate altrate (axis1rate c);
          c = tel_call (MoveAxis 0 azrate) c;
          c = tel_call (MoveAxis 1 altrate) c
      in c\<lparr>diffazlast := diffaz, diffaltlast := diffalt, altcorrect := 0, azcorrect := 0\<rparr>)"

definition follow_ascom_eq :: "env \<Rightarrow> controller \<Rightarrow> controller" where
  \<comment> \<open>Lines 538-575.\<close>
  "follow_ascom_eq e c =
     (let raddec = sat_dec (sat_now e);
          radra = sat_ra (sat_now e);
          currentra = tel_RightAscension e * 15;
          currentdec = tel_Declination e;
          diffra = degrees radra - currentra;
          diffdec = degrees raddec - currentdec;
          raddec2 = sat_dec (sat_next e);
          radra2 = sat_ra (sat_next e);
          truerarate = - 1 * degrees (radra2 - radra);
          truedecrate = degrees (raddec2 - raddec);
          rarate = truerarate - (diffra * 0.3);
          decrate = truedecrate + (diffdec * 0.3);
          rarate = clamp_rate rarate (axis0rate c);
          decrate = clamp_rate decrate (axis1rate c);
          c = tel_call (MoveAxis 0 rarate) c;
          c = tel_call (MoveAxis 1 decrate) c
      in c\<lparr>diffralast := diffra, diffdeclast := diffdec, deccorrect := 0, racorrect := 0\<rparr>)"

definition follow_lx200_altaz :: "env \<Rightarrow> controller \<Rightarrow> controller option" where
  \<comment> \<open>Lines 579-609.\<close>
  "follow_lx200_altaz e c =
     (let radalt = sat_alt (sat_now e);
          radaz = sataz_flip (sat_az (sat_now e))
      in do {
           c \<leftarrow> (if cycle_i c > 100 then
                   do {
                     (x, c) \<leftarrow> LX200_alt_degrees c;
                     (telalt, c) \<leftarrow> LX200_alt_degrees c;
                     (telaz, c) \<leftarrow> LX200_az_degrees c;
                     let currentalt = radians telalt;
                         currentaz = radians telaz;
                         altdiff = radalt - currentalt;
                         azdiff = radaz - currentaz;
                         totaldiff = sqrt (altdiff\<^sup>2 + azdiff\<^sup>2)
                     in Some (c\<lparr>altcorrect := altcorrect c + altdiff,
                                 azcorrect := azcorrect c + azdiff,
                                 cycle_i := 0,
                                 lasttotaldiff := totaldiff\<rparr>)
                   }
                 else Some c);
           let radaz = radaz + azcorrect c;
               radalt = radalt + altcorrect c
           in Some (ser_write (goto_altaz radaz radalt) c)
         })"

definition follow_lx200_eq :: "env \<Rightarrow> controller \<Rightarrow> controller option" where
  \<comment> \<open>Lines 610-641.\<close>
  "follow_lx200_eq e c =
     (let radra = sat_ra (sat_now e);
          raddec = sat_dec (sat_now e)
      in do {
           (x, c) \<leftarrow> LX200_dec_degrees c;
           (teldec, c) \<leftarrow> LX200_dec_degrees c;
           (telra, c) \<leftarrow> LX200_ra_degrees c;
           let currentdec = radians teldec;
               currentra = radians telra;
               decdiff = raddec - currentdec;
               radiff = radra - currentra;
               totaldiff = sqrt (decdiff\<^sup>2 + radiff\<^sup>2);
               c = c\<lparr>cycle_i := 0\<rparr>;
               c = (if lasttotaldiff c < totaldiff
                    then c\<lparr>deccorrect := deccorrect c + decdiff,
                           racorrect := racorrect c + radiff\<rparr>
                    else c);
               c = c\<lparr>lasttotaldiff := totaldiff\<rparr>;
               radra = radra + racorrect c;
               raddec = raddec + deccorrect c
           in Some (ser_write (goto_radec radra raddec) c)
         })"

definition follow_ephem :: "env \<Rightarrow> controller \<Rightarrow> controller option" where
  \<comment> \<open>The body of \<open>if trackSettings.objectfollow is False\<close>, lines 495-641.\<close>
  "follow_ephem e c =
     (let c = c\<lparr>cycle_i := cycle_i c + 1\<rparr>;
          c = (if telescopetype e = ''ASCOM'' then
                 (let c = (if mounttype e = ''AltAz'' \<and> trackingsat e
                           then follow_ascom_altaz e c else c);
                      c = (if mounttype e = ''Eq'' \<and> trackingsat e
                           then follow_ascom_eq e c else c)
                  in c)
               else c)
      in if telescopetype e = ''LX200'' then
           do {
             c \<leftarrow> (if mounttype e = ''AltAz'' then follow_lx200_altaz e c else Some c);
             (if mounttype e = ''Eq'' then follow_lx200_eq e c else Some c)
           }
         else Some c)"

subsection \<open>Following with visual lock, lines 643-842\<close>

definition visual_ascom_altaz :: "env \<Rightarrow> controller \<Rightarrow> controller" where
  \<comment> \<open>Lines 657-704. An exception inside \<open>try\<close> leaves the cycle without a command.\<close>
  "visual_ascom_altaz e c =
     (let radalt = sat_alt (sat_now e);
          radaz = sat_az (sat_now e);
          currentaltdegrees = tel_Altitude e
      in if dnow e > dlast c then
           (let currentalt = radians (tel_Altitude e)
            in case sky_delta (object_polar e) currentaltdegrees of
                 Inl err \<Rightarrow> c
               | Inr (objectalt, diffinaz) \<Rightarrow>
                   (let altdiff = degrees (radians objectalt - currentalt);
                        azdiff = diffinaz;
                        radalt2 = sat_alt (sat_next e);
                        radaz2 = sat_az (sat_next e);
                        azrate = degrees (radaz2 - radaz);
                        altrate = degrees (radalt2 - radalt);
                        azrate = azrate + azdiff;
                        altrate = altrate + altdiff;
                        azrate = clamp_rate azrate (axis0rate c);
                        altrate = clamp_rate altrate (axis1rate c);
                        c = tel_call (MoveAxis 0 azrate) c;
                        c = tel_call (MoveAxis 1 altrate) c
                    in c\<lparr>diffazlast := azdiff\<rparr>))
         else c)"

definition visual_ascom_eq :: "env \<Rightarrow> controller \<Rightarrow> controller" where
  \<comment> \<open>Lines 706-750. The locals \<open>objectdec\<close> (line 720) and \<open>diffinra\<close> (lines 721-723)
      keep their values when a later line of the \<open>try\<close> raises.\<close>
  "visual_ascom_eq e c =
     (let raddec = sat_dec (sat_now e);
          radra = sat_ra (sat_now e);
          currentdecdegrees = tel_Declination e
      in if dnow e > dlast c then
           (let currentdec = radians (tel_Declination e)
            in case law_of_cosines_alt (object_polar e) currentdecdegrees of
                 Inl err \<Rightarrow> c
               | Inr objdec \<Rightarrow>
                   (let c = c\<lparr>objectdec := Some objdec\<rparr>
                    in case law_of_cosines_az (object_polar e) currentdecdegrees objdec of
                         Inl err \<Rightarrow> c
                       | Inr dra \<Rightarrow>
                           (let dra = (if \<bar>objectangle2 (object_polar e)\<bar> > 90
                                       then - 1 * dra else dra);
                                c = c\<lparr>diffinra := Some dra\<rparr>;
                                decdiff = radians objdec - currentdec;
                                radiff = radians dra;
                                raddec2 = sat_dec (sat_next e);
                                radra2 = sat_ra (sat_next e);
                                rarate = degrees (radra2 - radra);
                                decrate = degrees (raddec2 - raddec);
                                rarate = rarate + degrees radiff;
                                decrate = decrate + degrees decdiff;
                                rarate = clamp_rate rarate (axis0rate c);
                                decrate = clamp_rate decrate (axis1rate c);
                                c = tel_call (MoveAxis 0 rarate) c;
                                c = tel_call (MoveAxis 1 decrate) c
                            in c\<lparr>diffralast := radiff, diffdeclast := decdiff\<rparr>)))
         else c)"

definition visual_lx200_altaz :: "env \<Rightarrow> controller \<Rightarrow> controller option" where
  \<comment> \<open>Lines 753-798.\<close>
  "visual_lx200_altaz e c =
     (let radalt = sat_alt (sat_now e);
          radaz = sataz_flip (sat_az (sat_now e))
      in do {
           c \<leftarrow> (if dnow e > dlast c then
                   do {
                     (x, c) \<leftarrow> LX200_alt_degrees c;
                     (telalt, c) \<leftarrow> LX200_alt_degrees c;
                     (telaz, c) \<leftarrow> LX200_az_degrees c;
                     let currentalt = radians telalt
                     in case sky_delta (object_polar e) telalt of
                          Inl err \<Rightarrow> Some c
                        | Inr (objectalt, diffinaz) \<Rightarrow>
                            (let altdiff = radians objectalt - currentalt;
                                 azdiff = radians diffinaz;
                                 totaldiff = sqrt (altdiff\<^sup>2 + azdiff\<^sup>2);
                                 c = (if lasttotaldiff c < totaldiff
                                      then c\<lparr>altcorrect := altcorrect c + altdiff,
                                             azcorrect := azcorrect c + azdiff\<rparr>
                                      else c)
                             in Some (c\<lparr>lasttotaldiff := totaldiff\<rparr>))
                   }
                 else Some c);
           let c = c\<lparr>dlast := dnow e\<rparr>;
               radaz = radaz + azcorrect c;
               radalt = radalt + altcorrect c
           in Some (ser_write (goto_altaz radaz radalt) c)
         })"

definition visual_lx200_EQ_try :: "env \<Rightarrow> real \<Rightarrow> real \<Rightarrow> controller \<Rightarrow> controller" where
  \<comment> \<open>The \<open>try\<close> of lines 814-831. Lines 815-816 assign \<open>objectalt\<close> and \<open>diffinaz\<close>;
      lines 817-820 read \<open>diffinra\<close> and \<open>objectdec\<close>, locals of \<open>sat_track\<close> that only
      lines 720-723 assign: unassigned, the read raises \<open>UnboundLocalError\<close> and the
      \<open>except\<close> of line 830 ends the \<open>try\<close>.\<close>
  "visual_lx200_EQ_try e teldec currentdec c =
     (case sky_delta (object_polar e) teldec of
        Inl err \<Rightarrow> c
      | Inr (objectalt, diffinaz) \<Rightarrow>
          (case (if \<bar>objectangle2 (object_polar e)\<bar> > 90
                 then (case diffinra c of
                         None \<Rightarrow> Inl NameError
                       | Some dra \<Rightarrow> Inr (c\<lparr>diffinra := Some (- 1 * dra)\<rparr>))
                 else Inr c) of
             Inl err \<Rightarrow> c
           | Inr c \<Rightarrow>
               (case objectdec c of
                  None \<Rightarrow> c
                | Some objdec \<Rightarrow>
                    (case diffinra c of
                       None \<Rightarrow> c
                     | Some dra \<Rightarrow>
                         (let decdiff = radians objdec - currentdec;
                              radiff = radians dra;
                              totaldiff = sqrt (decdiff\<^sup>2 + radiff\<^sup>2);
                              c = (if lasttotaldiff c < totaldiff
                                   then c\<lparr>deccorrect := deccorrect c + decdiff,
                                          racorrect := racorrect c + radiff\<rparr>
                                   else c)
                          in c\<lparr>lasttotaldiff := totaldiff\<rparr>)))))"

definition visual_lx200_EQ :: "env \<Rightarrow> controller \<Rightarrow> controller option" where
  \<comment> \<open>Lines 800-842, the body of \<open>if trackSettings.mounttype == 'EQ'\<close>.\<close>
  "visual_lx200_EQ e c =
     (let raddec = sat_dec (sat_now e);
          radra = sat_ra (sat_now e)
      in do {
           c \<leftarrow> (if dnow e > dlast c then
                   do {
                     (x, c) \<leftarrow> LX200_dec_degrees c;
                     (teldec, c) \<leftarrow> LX200_dec_degrees c;
                     (telra, c) \<leftarrow> LX200_ra_degrees c;
                     Some (visual_lx200_EQ_try e teldec (radians teldec) c)
                   }
                 else Some c);
           let c = c\<lparr>dlast := dnow e\<rparr>;
               radra = radra + racorrect c;
               raddec = raddec + deccorrect c
           in Some (ser_write (goto_radec radra raddec) c)
         })"

definition follow_visual :: "env \<Rightarrow> controller \<Rightarrow> controller option" where
  \<comment> \<open>The body of \<open>if trackSettings.objectfollow is True\<close>, lines 644-842.\<close>
  "follow_visual e c =
     (let c = (if telescopetype e = ''ASCOM'' then
                 (let c = (if mounttype e = ''AltAz'' \<and> trackingsat e
                           then visual_ascom_altaz e c else c);
                      c = (if mounttype e = ''Eq'' \<and> trackingsat e
                           then visual_ascom_eq e c else c)
                  in c)
               else c)
      in if telescopetype e = ''LX200'' then
           do {
             c \<leftarrow> (if mounttype e = ''AltAz'' then visual_lx200_altaz e c else Some c);
             (if mounttype e = ''EQ'' then visual_lx200_EQ e c else Some c)
           }
         else Some c)"

subsection \<open>The loop of sat_track\<close>

definition follow :: "env \<Rightarrow> controller \<Rightarrow> controller option" where
  \<comment> \<open>One tracking cycle after the slew block: lines 494-843.\<close>
  "follow e c =
     do {
       c \<leftarrow> (if \<not> objectfollow e then follow_ephem e c else Some c);
       (if objectfollow e then follow_visual e c else Some c)
     }"

definition sat_track_cycle :: "env \<Rightarrow> controller \<Rightarrow> controller option" where
  \<comment> \<open>One iteration of \<open>while trackSettings.trackingsat is True\<close>, lines 376-843.\<close>
  "sat_track_cycle e c =
     do {
       c \<leftarrow> (if firstslew c then slew e c else Some c);
       follow e c
     }"

definition sat_track_start :: "controller \<Rightarrow> controller" where
  \<comment> \<open>Lines 369-374.\<close>
  "sat_track_start c =
     c\<lparr>firstslew := True, altcorrect := 0, azcorrect := 0, deccorrect := 0, racorrect := 0,
       cycle_i := 0, objectdec := None, diffinra := None\<rparr>"

fun sat_track_loop :: "env list \<Rightarrow> controller \<Rightarrow> controller option" where
  \<comment> \<open>The loop of line 375 and the exit of lines 845-846, over the worlds its iterations
      meet; \<open>None\<close> when the loop is still running after the last of them.\<close>
  "sat_track_loop [] c = None"
| "sat_track_loop (e # es) c =
     (if trackingsat e then
        (case sat_track_cycle e c of None \<Rightarrow> None | Some c' \<Rightarrow> sat_track_loop es c')
      else Some (if telescopetype e = ''ASCOM'' then tel_call AbortSlew c else c))"

definition sat_track :: "env list \<Rightarrow> controller \<Rightarrow> controller option" where
  \<comment> \<open>\<open>buttons.sat_track\<close>, lines 368-846.\<close>
  "sat_track es c = sat_track_loop es (sat_track_start c)"

section \<open>Calibration estimator: buttons.set_calibration\<close>

text \<open>
  The calibration runs in a thread of its own while the camera thread moves the target
  and a second press of the button clears \<open>trackSettings.calibratestart\<close>. One
  \<open>calib_obs\<close> is what one pass of the motion loop reads: the flag at the loop test, the
  target's position in the body. \<open>polls\<close> lists the passes observed; a loop that is still
  running after the last of them has the result \<open>None\<close>. \<open>tel_exists\<close> says whether
  \<open>self.tel\<close> was ever created (it is created when an ASCOM scope connects, line 936).
\<close>

record calib_obs =
  obs_targetX :: real
  obs_targetY :: real
  obs_calibratestart :: bool

record calib =
  tracking :: bool
  collect_images :: bool
  height :: real
  tel_exists :: bool
  polls :: "calib_obs list"

definition separation_between_coordinates :: "real \<Rightarrow> real \<Rightarrow> real \<Rightarrow> real \<Rightarrow> py_error + real" where
  \<comment> \<open>Lines 1163-1164.\<close>
  "separation_between_coordinates X1 Y1 X2 Y2 =
     (case py_acos (sin Y1 * sin Y2 + cos Y1 * cos Y2 * cos (X1 - X2)) of
        Inl err \<Rightarrow> Inl err
      | Inr a \<Rightarrow> Inr (degrees a))"

definition calib_scale :: "real \<Rightarrow> real \<Rightarrow> real \<Rightarrow> real \<Rightarrow> real \<Rightarrow> py_error + real" where
  \<comment> \<open>Lines 1047-1048: the separation, then \<open>self.separation/distmoved\<close>.\<close>
  "calib_scale X1 Y1 X2 Y2 distmoved =
     (case separation_between_coordinates X1 Y1 X2 Y2 of
        Inl err \<Rightarrow> Inl err
      | Inr separation \<Rightarrow> py_div separation distmoved)"

fun calib_loop_ascom ::
  "real \<Rightarrow> real \<Rightarrow> real \<Rightarrow> real \<Rightarrow> calib_obs list \<Rightarrow> controller \<Rightarrow> (real \<times> controller) option" where
  \<comment> \<open>The loop \<open>while distmoved < 100 and trackSettings.calibratestart is True\<close>, lines
      1037-1042 (1055-1060, 1078-1083, 1097-1102).\<close>
  "calib_loop_ascom rate startx starty distmoved [] c =
     (if distmoved < 100 then None else Some (distmoved, c))"
| "calib_loop_ascom rate startx starty distmoved (ob # obs) c =
     (if distmoved < 100 \<and> obs_calibratestart ob then
        calib_loop_ascom rate startx starty
          (sqrt ((startx - obs_targetX ob)\<^sup>2 + (starty - obs_targetY ob)\<^sup>2)) obs
          (tel_call (MoveAxis 1 rate) c)
      else Some (distmoved, c))"

fun calib_loop_lx200 ::
  "ser_cmd \<Rightarrow> real \<Rightarrow> real \<Rightarrow> real \<Rightarrow> calib_obs list \<Rightarrow> controller \<Rightarrow> (real \<times> controller) option" where
  \<comment> \<open>The loop \<open>while distmoved < 100\<close>, lines 1125-1130 (1144-1149).\<close>
  "calib_loop_lx200 move startx starty distmoved [] c =
     (if distmoved < 100 then None else Some (distmoved, c))"
| "calib_loop_lx200 move startx starty distmoved (ob # obs) c =
     (if distmoved < 100 then
        calib_loop_lx200 move startx starty
          (sqrt ((startx - obs_targetX ob)\<^sup>2 + (starty - obs_targetY ob)\<^sup>2)) obs
          (ser_write [move] c)
      else Some (distmoved, c))"

definition calibrate_ascom ::
  "calib \<Rightarrow> env \<Rightarrow> env \<Rightarrow> controller \<Rightarrow> (controller \<times> (py_error + real option)) option" where
  \<comment> \<open>Lines 1028-1113. The four copies of the motion (alt-azimuth or equatorial, up or
      down) differ in the properties read and in the sign of the rate. The result pairs the
      controller with the exception that ended the routine or with the new image scale.\<close>
  "calibrate_ascom k e1 e2 c =
     (if mounttype e1 = ''AltAz'' \<or> mounttype e1 = ''Eq'' then
        (let X1 = (if mounttype e1 = ''AltAz'' then radians (tel_Azimuth e1)
                   else radians (tel_RightAscension e1 * 15));
             Y1 = (if mounttype e1 = ''AltAz'' then radians (tel_Altitude e1)
                   else radians (tel_Declination e1));
             startx = targetX e1;
             starty = targetY e1;
             rate = (if starty < (height k / 2) then 0.1 else - 0.1);
             distmoved = 0;
             c = tel_call (MoveAxis 1 rate) c
         in case calib_loop_ascom rate startx starty distmoved (polls k) c of
              None \<Rightarrow> None
            | Some (distmoved, c) \<Rightarrow>
                (let c = tel_call (MoveAxis 1 0.0) c;
                     X2 = (if mounttype e1 = ''AltAz'' then radians (tel_Azimuth e2)
                           else radians (tel_RightAscension e2 * 15));
                     Y2 = (if mounttype e1 = ''AltAz'' then radians (tel_Altitude e2)
                           else radians (tel_Declination e2))
                 in case calib_scale X1 Y1 X2 Y2 distmoved of
                      Inl err \<Rightarrow> Some (c, Inl err)
                    | Inr scale \<Rightarrow> Some (c, Inr (Some scale))))
      else Some (c, Inr None))"

definition calibrate_lx200 ::
  "calib \<Rightarrow> env \<Rightarrow> controller \<Rightarrow> (controller \<times> (py_error + real option)) option" where
  \<comment> \<open>Lines 1114-1160: north (\<open>:Mn#\<close>, \<open>:Qn#\<close>) or south (\<open>:Ms#\<close>, \<open>:Qs#\<close>).\<close>
  "calibrate_lx200 k e1 c =
     do {
       (az1, c) \<leftarrow> LX200_az_degrees c;
       (alt1, c) \<leftarrow> LX200_alt_degrees c;
       let X1 = radians az1;
           Y1 = radians alt1;
           startx = targetX e1;
           starty = targetY e1;
           north = (starty < (height k / 2));
           distmoved = 0;
           c = ser_write [Rate_RC] c
       in do {
            (distmoved, c) \<leftarrow>
              calib_loop_lx200 (if north then Move_Mn else Move_Ms) startx starty distmoved (polls k) c;
            let c = ser_write [if north then Quit_Qn else Quit_Qs] c
            in do {
                 (az2, c) \<leftarrow> LX200_az_degrees c;
                 (alt2, c) \<leftarrow> LX200_alt_degrees c;
                 (case calib_scale X1 Y1 (radians az2) (radians alt2) distmoved of
                    Inl err \<Rightarrow> Some (c, Inl err)
                  | Inr scale \<Rightarrow> Some (c, Inr (Some scale)))
               }
          }
     }"

definition set_calibration ::
  "bool \<Rightarrow> calib \<Rightarrow> env \<Rightarrow> env \<Rightarrow> controller \<Rightarrow> (controller \<times> (py_error + real option)) option" where
  \<comment> \<open>Lines 1008-1161. \<open>calibratestart\<close> is the flag as the call finds it: cleared, the
      call arms the calibration and runs it when the guard of line 1027 holds; set, the call
      is the request to cancel (lines 1012-1014). \<open>Inr None\<close>: returned without a new scale.\<close>
  "set_calibration calibratestart k e1 e2 c =
     (if \<not> calibratestart then
        (if tracking k \<and> collect_images k \<and> objectfollow e1 then
           (if telescopetype e1 = ''ASCOM'' then calibrate_ascom k e1 e2 c
            else if telescopetype e1 = ''LX200'' then calibrate_lx200 k e1 c
            else Some (c, Inr None))
         else Some (c, Inr None))
      else if tel_exists k then Some (tel_call (MoveAxis 1 0.0) c, Inr None)
      else Some (c, Inl AttributeError))"


section \<open>Predicates of the claims and example inputs\<close>

fun rate_within :: "real \<Rightarrow> real \<Rightarrow> tel_cmd \<Rightarrow> bool" where
  \<comment> \<open>A \<open>MoveAxis\<close> is for axis 0 or 1 and its rate is within that axis's limit.\<close>
  "rate_within L0 L1 (MoveAxis axis rate) =
     ((axis = 0 \<and> - L0 \<le> rate \<and> rate \<le> L0) \<or> (axis = 1 \<and> - L1 \<le> rate \<and> rate \<le> L1))"
| "rate_within L0 L1 (SlewToAltAz az alt) = True"
| "rate_within L0 L1 (SlewToCoordinates ra dec) = True"
| "rate_within L0 L1 AbortSlew = True"

definition tel_extends :: "controller \<Rightarrow> controller \<Rightarrow> bool" where
  \<comment> \<open>From \<open>c\<close> to \<open>c'\<close> the axis limits are the same and every new call is within them.\<close>
  "tel_extends c c' =
     (axis0rate c' = axis0rate c \<and> axis1rate c' = axis1rate c \<and>
      (\<exists>new. tel_log c' = tel_log c @ new
             \<and> list_all (rate_within (axis0rate c) (axis1rate c)) new))"

definition same_tel :: "controller \<Rightarrow> controller \<Rightarrow> bool" where
  \<comment> \<open>From \<open>c\<close> to \<open>c'\<close> nothing was called on the ASCOM driver.\<close>
  "same_tel c c' =
     (axis0rate c' = axis0rate c \<and> axis1rate c' = axis1rate c \<and> tel_log c' = tel_log c)"

definition rect :: "'a list list \<Rightarrow> bool" where
  \<comment> \<open>The rows have one length, as the rows of a numpy array have.\<close>
  "rect a = (map length a = replicate (nat (fst (shape a))) (nat (snd (shape a))))"

definition template_fits :: "u8img \<Rightarrow> ndarray \<Rightarrow> bool" where
  \<comment> \<open>Frame and template are arrays and the frame is at least as large as the template.\<close>
  "template_fits img imageroi =
     (rect img \<and> rect (astype_float imageroi) \<and>
      fst (np_shape imageroi) \<le> fst (shape img) \<and> snd (np_shape imageroi) \<le> snd (shape img))"

definition search_inv :: "u8img \<Rightarrow> ndarray \<Rightarrow> search \<Rightarrow> bool" where
  \<comment> \<open>The invariant of the search: no minimum yet, or a best position inside the frame.\<close>
  "search_inv img imageroi st =
     (case searchxy2 st of
        None \<Rightarrow> finalroidiff st = PInf
      | Some (x, y) \<Rightarrow>
          0 \<le> x \<and> x \<le> snd (shape img) - snd (np_shape imageroi) \<and>
          0 \<le> y \<and> y \<le> fst (shape img) - fst (np_shape imageroi))"

definition uniform_min :: "(int \<times> int) \<Rightarrow> search \<Rightarrow> bool" where
  \<comment> \<open>The search on a frame of constant 40 with a template of constant 255, once a window
      has been scored: the minimum is the one score every window has, kept at \<open>p\<close>.\<close>
  "uniform_min p st = (finalroidiff st = Fin (820 / 51) \<and> searchxy2 st = Some p)"

text \<open>
  A connected controller at rest, an ephemeris at the origin and a world in which nothing
  moves: the concrete inputs of the examples below are updates of these.
\<close>

definition controller0 :: controller where
  "controller0 =
     \<lparr>firstslew = False, altcorrect = 0, azcorrect = 0, deccorrect = 0, racorrect = 0,
      cycle_i = 0, diffazlast = 0, diffaltlast = 0, diffralast = 0, diffdeclast = 0,
      lasttotaldiff = 0, dlast = 0, axis0rate = 2, axis1rate = 2,
      tel_log = [], ser_log = [], ser_in = [], objectdec = None, diffinra = None\<rparr>"

definition ephem0 :: ephem where
  "ephem0 = \<lparr>sat_alt = 0, sat_az = 0, sat_ra = 0, sat_dec = 0\<rparr>"

definition env0 :: env where
  "env0 =
     \<lparr>telescopetype = ''LX200'', mounttype = ''AltAz'', objectfollow = False,
      trackingsat = True, mainviewX = 320, mainviewY = 240, imagescale = 1,
      targetX = 320, targetY = 240, dnow = 1,
      slew_sat = ephem0, slew_sat2 = ephem0, sat_now = ephem0, sat_next = ephem0,
      tel_Azimuth = 0, tel_Altitude = 0, tel_RightAscension = 0, tel_Declination = 0\<rparr>"

definition calib0 :: calib where
  "calib0 = \<lparr>tracking = True, collect_images = True, height = 480, tel_exists = False, polls = []\<rparr>"

definition env_ascom_lagging :: env where
  "env_ascom_lagging =
     env0\<lparr>telescopetype := ''ASCOM'', tel_Azimuth := - 20 / 3, tel_Altitude := 12\<rparr>"

definition env_offset :: env where
  "env_offset = env0\<lparr>targetX := 319, targetY := 239\<rparr>"


section \<open>Theorems\<close>

subsection \<open>Coordinate codec\<close>

lemma py_trunc_nonneg: "0 \<le> x \<Longrightarrow> py_trunc x = \<lfloor>x\<rfloor>"
  by (simp add: py_trunc_def)

lemma seconds_diff_nonneg:
  fixes a b s t :: real
  assumes "a - b = (s - t) / 3600" and "t \<le> s"
  shows "b \<le> a"
proof -
  have "0 \<le> (s - t) / 3600"
    using assms(2) by simp
  then show ?thesis
    using assms(1) by linarith
qed

lemma seconds_diff_small:
  fixes a b s t :: real
  assumes "a - b = (s - t) / 3600" and "s < t + 1"
  shows "a - b < 1 / 3600"
proof -
  have "(s - t) / 3600 < 1 / 3600"
    using assms(2) by simp
  then show ?thesis
    using assms(1) by linarith
qed

lemma sexagesimal_roundtrip_nonneg:
  assumes "0 \<le> v"
  shows "sexagesimal_roundtrip v \<le> v" and "v - sexagesimal_roundtrip v < 1 / 3600"
proof -
  define f where "f = v - of_int \<lfloor>v\<rfloor>"
  have f0: "0 \<le> f" and f1: "f < 1"
    unfolding f_def by linarith+
  have d: "py_trunc v = \<lfloor>v\<rfloor>"
    using assms by (rule py_trunc_nonneg)
  have fl0: "0 \<le> \<lfloor>v\<rfloor>"
    using assms by simp
  have absd: "\<bar>v\<bar> - \<bar>of_int \<lfloor>v\<rfloor> :: real\<bar> = f"
    using assms fl0 by (simp add: f_def)
  define m where "m = \<lfloor>f * 60\<rfloor>"
  have m0: "0 \<le> m"
    unfolding m_def using f0 by simp
  have mlow: "of_int m \<le> f * 60" and mhigh: "f * 60 < of_int m + 1"
    unfolding m_def by linarith+
  have mt: "py_trunc (f * 60) = m"
    using f0 by (simp add: py_trunc_def m_def)
  define s where "s = (f * 60 - of_int m) * 60"
  have s0: "0 \<le> s"
    unfolding s_def using mlow by simp
  have st: "py_trunc s = \<lfloor>s\<rfloor>"
    using s0 by (rule py_trunc_nonneg)
  have absm: "\<bar>of_int m :: real\<bar> = of_int m"
    using m0 by simp
  have e: "alt_dms v = \<lparr>sx_d = \<lfloor>v\<rfloor>, sx_m = m, sx_s = s\<rparr>"
    unfolding alt_dms_def Let_def d absd mt absm s_def ..
  have rt: "sexagesimal_roundtrip v = ((of_int \<lfloor>s\<rfloor> / 60 + of_int m) / 60) + of_int \<lfloor>v\<rfloor>"
    unfolding sexagesimal_roundtrip_def Let_def e respdegrees_def by (simp add: st)
  have v: "v = ((s / 60 + of_int m) / 60) + of_int \<lfloor>v\<rfloor>"
    unfolding s_def f_def by (simp add: field_simps)
  have diff: "v - sexagesimal_roundtrip v = (s - of_int \<lfloor>s\<rfloor>) / 3600"
    by (subst v, subst rt) (simp add: field_simps)
  have lo: "of_int \<lfloor>s\<rfloor> \<le> s"
    by linarith
  have hi: "s < of_int \<lfloor>s\<rfloor> + 1"
    by linarith
  show "sexagesimal_roundtrip v \<le> v"
    using diff lo by (rule seconds_diff_nonneg)
  show "v - sexagesimal_roundtrip v < 1 / 3600"
    using diff hi by (rule seconds_diff_small)
qed

text \<open>
  C3. The claim: for every \<open>v\<close> in \<open>[-360, 360]\<close>, decoding the sexagesimal encoding of
  \<open>v\<close> gives \<open>v\<close> back within one arc second. The code at \<open>v = -10.5\<close>: the encoder
  yields the fields \<open>-10\<close>, \<open>30\<close>, \<open>0\<close> (sign and magnitude), and the decoder of
  \<open>read_to_hash\<close> adds the minutes to the signed degrees, which gives \<open>-9.5\<close>: one whole
  degree away from \<open>v\<close>.
\<close>

theorem sexagesimal_roundtrip_negative_off_by_degree:
  "alt_dms (- 21 / 2) = \<lparr>sx_d = - 10, sx_m = 30, sx_s = 0\<rparr>
   \<and> sexagesimal_roundtrip (- 21 / 2) = - 19 / 2
   \<and> \<not> \<bar>sexagesimal_roundtrip (- 21 / 2) - (- 21 / 2)\<bar> \<le> 1 / 3600"
  by (simp add: sexagesimal_roundtrip_def alt_dms_def respdegrees_def py_trunc_def Let_def)


subsection \<open>Target locator\<close>

lemma astype_float_F64: "astype_float (F64 m) = m"
  by (simp add: astype_float_def)

lemma py_slice_length:
  assumes "0 \<le> a" and "a \<le> b" and "b \<le> int (length xs)"
  shows "length (py_slice a b xs) = nat (b - a)"
  using assms by (auto simp: py_slice_def Let_def min_def max_def)

lemma py_slice_subset: "set (py_slice a b xs) \<subseteq> set xs"
  by (auto simp: py_slice_def Let_def dest: in_set_takeD in_set_dropD)

lemma rect_rows:
  assumes "rect a" and "r \<in> set a"
  shows "int (length r) = snd (shape a)"
proof -
  from assms(1) have "set (map length a) \<subseteq> {nat (snd (shape a))}"
    by (simp add: rect_def set_replicate_conv_if)
  moreover from assms(2) have "length r \<in> set (map length a)"
    by simp
  ultimately have "length r = nat (snd (shape a))"
    by blast
  moreover have "0 \<le> snd (shape a)"
    by (simp add: shape_def split: list.splits)
  ultimately show ?thesis
    by simp
qed

lemma shape_rows: "fst (shape a) = int (length a)"
  by (simp add: shape_def)

lemma crop_shape:
  assumes "rect img" and "0 \<le> y" and "y + h \<le> fst (shape img)" and "0 \<le> h"
    and "0 \<le> x" and "x + w \<le> snd (shape img)" and "0 \<le> w"
  shows "map length (crop img y (y + h) x (x + w)) = replicate (nat h) (nat w)"
proof -
  let ?rows = "py_slice y (y + h) img"
  have n: "length ?rows = nat h"
    using py_slice_length [of y "y + h" img] assms(2,3,4) by (simp add: shape_rows)
  have "length (py_slice x (x + w) r) = nat w" if "r \<in> set ?rows" for r
  proof -
    from that have "r \<in> set img"
      using py_slice_subset [of y "y + h" img] by (rule subsetD [rotated])
    then have "int (length r) = snd (shape img)"
      using assms(1) by (rule rect_rows [rotated])
    then show ?thesis
      using py_slice_length [of x "x + w" r] assms(5,6,7) by simp
  qed
  then have "map length (crop img y (y + h) x (x + w)) = map (\<lambda>r. nat w) ?rows"
    by (simp add: crop_def)
  also have "\<dots> = replicate (nat h) (nat w)"
    by (simp add: map_replicate_const n)
  finally show ?thesis .
qed

lemma astype_int8_shape: "map length (astype_int8 a) = map length (astype_float a)"
  by (cases a) (simp_all add: astype_int8_def astype_float_def)

lemma np_shape_float: "np_shape a = shape (astype_float a)"
  by (cases a) (simp_all add: np_shape_def astype_float_def shape_def split: list.splits)

lemma np_shape_nonneg: "0 \<le> fst (np_shape a)" "0 \<le> snd (np_shape a)"
  by (simp_all add: np_shape_float shape_def split: list.splits)

lemma clamp_check_bounds:
  assumes "0 \<le> hi"
  shows "0 \<le> clamp_check c hi" and "clamp_check c hi \<le> hi"
  using assms by (simp_all add: clamp_check_def)

lemma window_shape:
  assumes "template_fits img imageroi"
    and "0 \<le> x" and "x \<le> snd (shape img) - snd (np_shape imageroi)"
    and "0 \<le> y" and "y \<le> fst (shape img) - fst (np_shape imageroi)"
  shows "map length (crop img y (y + fst (np_shape imageroi)) x (x + snd (np_shape imageroi)))
         = map length (astype_float imageroi)"
proof -
  from assms(1) have r: "rect img" and t: "rect (astype_float imageroi)"
    by (simp_all add: template_fits_def)
  have "map length (crop img y (y + fst (np_shape imageroi)) x (x + snd (np_shape imageroi)))
        = replicate (nat (fst (np_shape imageroi))) (nat (snd (np_shape imageroi)))"
    using r assms(2-5) np_shape_nonneg [of imageroi] by (intro crop_shape) simp_all
  also have "\<dots> = map length (astype_float imageroi)"
    using t by (simp add: rect_def np_shape_float)
  finally show ?thesis .
qed

lemma roi_diff_returns:
  assumes "template_fits img imageroi"
    and "0 \<le> x" and "x \<le> snd (shape img) - snd (np_shape imageroi)"
    and "0 \<le> y" and "y \<le> fst (shape img) - fst (np_shape imageroi)"
  shows "\<exists>d. roi_diff (crop img y (y + fst (np_shape imageroi)) x (x + snd (np_shape imageroi)))
               imageroi = Inr d"
  using window_shape [OF assms]
  by (simp add: roi_diff_def same_shape_def astype_int8_shape Let_def)

lemma fits_limits:
  assumes "template_fits img imageroi"
  shows "0 \<le> snd (shape img) - snd (np_shape imageroi)"
    and "0 \<le> fst (shape img) - fst (np_shape imageroi)"
  using assms by (simp_all add: template_fits_def)

lemma search_inv_clock [simp]:
  "search_inv img imageroi (st\<lparr>clock := k\<rparr>) = search_inv img imageroi st"
  by (simp add: search_inv_def split: option.splits)

lemma search_inv_difflowered [simp]:
  "search_inv img imageroi (st\<lparr>difflowered := b\<rparr>) = search_inv img imageroi st"
  by (simp add: search_inv_def split: option.splits)

lemma scan_x_returns:
  assumes "template_fits img imageroi" and "search_inv img imageroi st"
  shows "\<exists>st'. scan_x img imageroi xs ycheck st = Inr st' \<and> search_inv img imageroi st'"
  using assms(2)
proof (induction xs arbitrary: ycheck st)
  case Nil
  then show ?case by simp
next
  case (Cons xcheck xs)
  define x where "x = clamp_check xcheck (snd (shape img) - snd (np_shape imageroi))"
  define y where "y = clamp_check ycheck (fst (shape img) - fst (np_shape imageroi))"
  have xb: "0 \<le> x" "x \<le> snd (shape img) - snd (np_shape imageroi)"
    unfolding x_def using fits_limits(1) [OF assms(1)] by (simp_all add: clamp_check_bounds)
  have yb: "0 \<le> y" "y \<le> fst (shape img) - fst (np_shape imageroi)"
    unfolding y_def using fits_limits(2) [OF assms(1)] by (simp_all add: clamp_check_bounds)
  from roi_diff_returns [OF assms(1) xb yb] obtain d where
    d: "roi_diff (crop img y (y + fst (np_shape imageroi)) x (x + snd (np_shape imageroi)))
          imageroi = Inr d"
    by blast
  define st1 where "st1 = (if np_less d (finalroidiff st)
                        then st\<lparr>finalroidiff := d, searchxy2 := Some (x, y), difflowered := True\<rparr>
                        else st)"
  have i1: "search_inv img imageroi st1"
    using Cons.prems xb yb by (simp add: st1_def search_inv_def)
  have i2: "search_inv img imageroi (st1\<lparr>clock := clock st1 - 1\<rparr>)"
    using i1 by simp
  have step: "scan_x img imageroi (xcheck # xs) ycheck st
              = (if clock st1 = 0 then Inr st1
                 else scan_x img imageroi xs y (st1\<lparr>clock := clock st1 - 1\<rparr>))"
    by (simp add: Let_def x_def [symmetric] y_def [symmetric] d st1_def [symmetric])
  show ?case
  proof (cases "clock st1 = 0")
    case True
    with step i1 show ?thesis by simp
  next
    case False
    with step Cons.IH [OF i2, of y] show ?thesis by simp
  qed
qed

lemma scan_y_returns:
  assumes "template_fits img imageroi" and "search_inv img imageroi st"
  shows "\<exists>st'. scan_y img imageroi ys xr st = Inr st' \<and> search_inv img imageroi st'"
  using assms(2)
proof (induction ys arbitrary: st)
  case Nil
  then show ?case by simp
next
  case (Cons ycheck ys)
  show ?case
  proof (cases "clock st = 0")
    case True
    with Cons.prems show ?thesis by simp
  next
    case False
    have "search_inv img imageroi (st\<lparr>clock := clock st - 1\<rparr>)"
      using Cons.prems by simp
    from scan_x_returns [OF assms(1) this, of xr ycheck] obtain st1 where
      s1: "scan_x img imageroi xr ycheck (st\<lparr>clock := clock st - 1\<rparr>) = Inr st1" and
      i1: "search_inv img imageroi st1"
      by blast
    from Cons.IH [OF i1] False s1 show ?thesis
      by simp
  qed
qed

lemma search_loop_returns:
  assumes "template_fits img imageroi" and "search_inv img imageroi st"
  shows "\<exists>st'. search_loop img imageroi searchx1 searchy1 st = Inr st'
           \<and> search_inv img imageroi st'"
  using assms
proof (induction img imageroi searchx1 searchy1 st rule: search_loop.induct)
  case (1 img imageroi searchx1 searchy1 st)
  from scan_y_returns [OF "1.prems", of "[searchy1 - 15 .. searchy1 + 14]"
      "[searchx1 - 15 .. searchx1 + 14]"]
  obtain st1 where
    s1: "scan_y img imageroi [searchy1 - 15 .. searchy1 + 14] [searchx1 - 15 .. searchx1 + 14] st
         = Inr st1" and
    i1: "search_inv img imageroi st1"
    by blast
  define st2 where "st2 = st1\<lparr>difflowered := False\<rparr>"
  have i2: "search_inv img imageroi st2" "search_inv img imageroi (st2\<lparr>clock := clock st2 - 1\<rparr>)"
    using i1 by (simp_all add: st2_def)
  have step: "search_loop img imageroi searchx1 searchy1 st
              = (if clock st2 = 0 then Inr st2
                 else if difflowered st1
                      then search_loop img imageroi searchx1 searchy1 (st2\<lparr>clock := clock st2 - 1\<rparr>)
                      else Inr (st2\<lparr>clock := clock st2 - 1\<rparr>))"
    by (subst search_loop.simps) (simp add: s1 Let_def st2_def)
  show ?case
  proof (cases "clock st2 \<noteq> 0 \<and> difflowered st1")
    case True
    then have c: "clock st2 \<noteq> 0" and k: "difflowered st1"
      by simp_all
    from "1.IH" [OF s1 refl st2_def c k "1.prems"(1) i2(2)] step c k show ?thesis
      by simp
  next
    case False
    with step i2 show ?thesis
      by auto
  qed
qed

lemma shape_cong: "map length a = map length b \<Longrightarrow> shape a = shape b"
  by (cases a; cases b) (auto simp: shape_def dest: map_eq_imp_length_eq)

lemma blend_returns:
  assumes "map length learnimg = map length (astype_float imageroi)"
  shows "\<exists>imageroi'. blend imageroi learnimg = Inr imageroi'
           \<and> map length (astype_float imageroi') = map length (astype_float imageroi)"
proof -
  have ss: "same_shape (astype_float imageroi) learnimg"
    using assms by (simp add: same_shape_def)
  let ?r = "map2 (map2 (+)) (map (map (\<lambda>v. v * (9 / 10))) (astype_float imageroi))
              (map (map (\<lambda>p. of_int (uint p) * (1 / 10))) learnimg)"
  have b: "blend imageroi learnimg = Inr (F64 ?r)"
    using ss by (simp add: blend_def)
  have len: "length learnimg = length (astype_float imageroi)"
    using assms by (rule map_eq_imp_length_eq)
  have "map length ?r = map length (astype_float imageroi)"
  proof (rule nth_equalityI)
    show "length (map length ?r) = length (map length (astype_float imageroi))"
      using len by simp
  next
    fix i
    assume "i < length (map length ?r)"
    then have i: "i < length learnimg"
      using len by simp
    from assms have "map length learnimg ! i = map length (astype_float imageroi) ! i"
      by simp
    with i len have "length (learnimg ! i) = length (astype_float imageroi ! i)"
      by simp
    with i len show "map length ?r ! i = map length (astype_float imageroi) ! i"
      by simp
  qed
  with b show ?thesis
    by (simp add: astype_float_F64)
qed

lemma search_inv_start:
  "search_inv img imageroi
     \<lparr>finalroidiff = PInf, difflowered = False, searchxy2 = None, clock = deadline\<rparr>"
  by (simp add: search_inv_def)

lemma get_x_y_features_returns:
  assumes "template_fits img imageroi"
  shows "\<exists>roibox' imageroi' found.
           get_x_y_features deadline img roibox imageroi = Inr (roibox', imageroi', found)
           \<and> template_fits img imageroi'
           \<and> (if found then roi_within roibox' img else roibox' = roibox)"
proof -
  let ?st0 = "\<lparr>finalroidiff = PInf, difflowered = False, searchxy2 = None, clock = deadline\<rparr>"
  from search_loop_returns [OF assms search_inv_start, of "fst (fst roibox)" "snd (fst roibox)" deadline]
  obtain st where
    run: "search_loop img imageroi (fst (fst roibox)) (snd (fst roibox)) ?st0 = Inr st" and
    inv: "search_inv img imageroi st"
    by blast
  show ?thesis
  proof (cases "np_less (finalroidiff st) (Fin 20)")
    case False
    with run assms show ?thesis
      by (auto simp: get_x_y_features_def Let_def)
  next
    case True
    then have "finalroidiff st \<noteq> PInf"
      by auto
    with inv obtain x y where
      xy: "searchxy2 st = Some (x, y)" and
      xb: "0 \<le> x" "x \<le> snd (shape img) - snd (np_shape imageroi)" and
      yb: "0 \<le> y" "y \<le> fst (shape img) - fst (np_shape imageroi)"
      by (auto simp: search_inv_def split: option.splits)
    let ?learnimg = "crop img y (y + fst (np_shape imageroi)) x (x + snd (np_shape imageroi))"
    from blend_returns [OF window_shape [OF assms xb yb]] obtain imageroi' where
      b: "blend imageroi ?learnimg = Inr imageroi'" and
      l: "map length (astype_float imageroi') = map length (astype_float imageroi)"
      by blast
    have res: "get_x_y_features deadline img roibox imageroi
               = Inr (((x, y), (x + snd (np_shape imageroi), y + fst (np_shape imageroi))),
                      imageroi', True)"
      using run True xy b by (simp add: get_x_y_features_def Let_def)
    have sh: "np_shape imageroi' = np_shape imageroi"
      using shape_cong [OF l] by (simp add: np_shape_float)
    have fits: "template_fits img imageroi'"
      using assms l sh by (simp add: template_fits_def rect_def np_shape_float)
    have "roi_within ((x, y), (x + snd (np_shape imageroi), y + fst (np_shape imageroi))) img"
      using xb yb by (simp add: roi_within_def)
    with res fits show ?thesis
      by auto
  qed
qed

lemma feature_roi_stays_within_frame:
  assumes "template_fits img imageroi" and "roi_within roibox img"
  shows "\<exists>roibox' imageroi' found.
           get_x_y ''Features'' deadline cv ft img roibox imageroi = Inr (roibox', imageroi', found)
           \<and> template_fits img imageroi' \<and> roi_within roibox' img"
proof -
  from get_x_y_features_returns [OF assms(1), of deadline roibox] obtain roibox' imageroi' found
    where "get_x_y_features deadline img roibox imageroi = Inr (roibox', imageroi', found)"
      and "template_fits img imageroi'"
      and "if found then roi_within roibox' img else roibox' = roibox"
    by blast
  with assms(2) show ?thesis
    by (cases found) (auto simp: get_x_y_def)
qed

text \<open>
  C7. The claim: the score computed through the \<open>int8\<close> casts equals the absolute pixel
  difference divided by the template's intensity, times 100, for all \<open>uint8\<close> values. The
  code on a window of one pixel 255 and a template of one pixel 1: the casts give \<open>-1\<close> and
  \<open>1\<close>, the difference is \<open>-2\<close>, and the score is 200 where the definition gives 25400.
\<close>

theorem int8_score_differs_from_absolute_difference:
  "roi_diff [[255]] (U8 [[1]]) = Inr (Fin 200) \<and> spec_score [[255]] [[1]] = 25400"
  by (simp add: roi_diff_def astype_int8_def astype_float_def same_shape_def np_absolute_def
      np_sum_int8_def np_sum_def np_div_def spec_score_def)

lemma shape_replicate: "0 < h \<Longrightarrow> shape (replicate h (replicate w x)) = (int h, int w)"
  by (cases h) (simp_all add: shape_def)

text \<open>
  C4. The claim: the ROI returned by either strategy lies inside the frame. The code in
  the brightness strategy, on a frame of 10 by 10 pixels, a ROI of 4 by 4 at \<open>(6, 3)\<close>
  (inside the frame) and a blob whose centroid is the pixel \<open>(3, 2)\<close> of the ROI: the ROI
  moves one pixel to the right, only the lower bound is clamped (lines 151-154), and the
  returned ROI ends at column 11.
\<close>

theorem bright_roi_leaves_frame:
  "roi_within ((6, 3), (10, 7)) (replicate 10 (replicate 10 0))
   \<and> get_x_y ''Bright'' 0
        \<lparr>thresh = [[0, 0, 0, 0], [0, 0, 0, 0], [0, 0, 0, 255], [0, 0, 0, 0]],
         m00 = 255, m10 = 765, m01 = 510\<rparr>
        True (replicate 10 (replicate 10 0)) ((6, 3), (10, 7))
        (U8 [[0, 0, 0, 0], [0, 0, 0, 0], [0, 0, 0, 255], [0, 0, 0, 0]])
      = Inr (((7, 3), (11, 7)),
             U8 [[0, 0, 0, 0], [0, 0, 0, 0], [0, 0, 0, 255], [0, 0, 0, 0]], True)
   \<and> \<not> roi_within ((7, 3), (11, 7)) (replicate 10 (replicate 10 0))"
proof -
  have frame: "shape (replicate 10 (replicate 10 (0 :: 8 word))) = (10, 10)"
    by (simp add: shape_replicate)
  show ?thesis
    unfolding roi_within_def frame
    by (simp add: get_x_y_def get_x_y_bright_def np_shape_def shape_def py_trunc_def Let_def)
qed

lemma same_shape_nth:
  assumes "same_shape a b" and "i < length b"
  shows "length a = length b" and "length (a ! i) = length (b ! i)"
proof -
  from assms(1) have eq: "map length a = map length b"
    by (simp add: same_shape_def)
  then show len: "length a = length b"
    by (rule map_eq_imp_length_eq)
  from eq have "map length a ! i = map length b ! i"
    by simp
  with len assms(2) show "length (a ! i) = length (b ! i)"
    by simp
qed

lemma blend_pixel:
  assumes "blend imageroi learnimg = Inr imageroi'"
    and "i < length learnimg" and "j < length (learnimg ! i)"
  shows "astype_float imageroi' ! i ! j
         = 9 / 10 * (astype_float imageroi ! i ! j) + 1 / 10 * of_int (uint (learnimg ! i ! j))"
proof -
  from assms(1) have ss: "same_shape (astype_float imageroi) learnimg"
    by (simp add: blend_def split: if_splits)
  have len: "length (astype_float imageroi) = length learnimg"
    and row: "length (astype_float imageroi ! i) = length (learnimg ! i)"
    using same_shape_nth [OF ss assms(2)] by simp_all
  from assms(1) ss have "imageroi'
      = F64 (map2 (map2 (+)) (map (map (\<lambda>v. v * (9 / 10))) (astype_float imageroi))
          (map (map (\<lambda>p. of_int (uint p) * (1 / 10))) learnimg))"
    by (simp add: blend_def)
  then have r: "astype_float imageroi'
      = map2 (map2 (+)) (map (map (\<lambda>v. v * (9 / 10))) (astype_float imageroi))
          (map (map (\<lambda>p. of_int (uint p) * (1 / 10))) learnimg)"
    by (simp only: astype_float_F64)
  show ?thesis
    unfolding r using assms(2,3) len row by simp
qed

lemma blend_fixed_point:
  fixes a a' p :: real
  assumes "a' = 9 / 10 * a + 1 / 10 * p"
  shows "a' = p \<longleftrightarrow> a = p"
  using assms by linarith

lemma blend_constant:
  "blend (U8 (replicate h (replicate w 100))) (replicate h (replicate w 200))
   = Inr (F64 (replicate h (replicate w 110)))"
  by (simp add: blend_def astype_float_def same_shape_def)

lemma accepted_blend:
  assumes "get_x_y_features deadline img roibox imageroi = Inr (roibox', imageroi', True)"
  shows "blend imageroi (crop img (snd (fst roibox')) (snd (snd roibox'))
                           (fst (fst roibox')) (fst (snd roibox'))) = Inr imageroi'"
  using assms
  by (auto simp: get_x_y_features_def Let_def split: sum.splits if_splits option.splits)

text \<open>
  C9. When a feature match is accepted, the returned template is the blend of the old
  template with the patch \<open>learnimg\<close> cut out of the frame at the new ROI: each pixel is
  0.9 times the old pixel plus 0.1 times the patch's. The template is not replaced by the
  patch: a pixel of the new template equals the patch's only where the old one already
  did. A template of constant 100 blended with a patch of constant 200 is constant 110.
\<close>

theorem template_blend_law:
  "(get_x_y ''Features'' deadline cv ft img roibox imageroi = Inr (roibox', imageroi', True) \<longrightarrow>
      (\<exists>learnimg.
         learnimg = crop img (snd (fst roibox')) (snd (snd roibox'))
                      (fst (fst roibox')) (fst (snd roibox'))
         \<and> blend imageroi learnimg = Inr imageroi'
         \<and> (\<forall>i j. i < length learnimg \<longrightarrow> j < length (learnimg ! i) \<longrightarrow>
                astype_float imageroi' ! i ! j
                  = 9 / 10 * (astype_float imageroi ! i ! j)
                    + 1 / 10 * of_int (uint (learnimg ! i ! j))
                \<and> (astype_float imageroi' ! i ! j = of_int (uint (learnimg ! i ! j))
                     \<longleftrightarrow> astype_float imageroi ! i ! j = of_int (uint (learnimg ! i ! j))))))
   \<and> blend (U8 (replicate h (replicate w 100))) (replicate h (replicate w 200))
       = Inr (F64 (replicate h (replicate w 110)))"
proof (intro conjI impI)
  assume acc: "get_x_y ''Features'' deadline cv ft img roibox imageroi = Inr (roibox', imageroi', True)"
  let ?learnimg = "crop img (snd (fst roibox')) (snd (snd roibox'))
                      (fst (fst roibox')) (fst (snd roibox'))"
  from acc have b: "blend imageroi ?learnimg = Inr imageroi'"
    by (simp add: get_x_y_def accepted_blend)
  show "\<exists>learnimg.
         learnimg = ?learnimg
         \<and> blend imageroi learnimg = Inr imageroi'
         \<and> (\<forall>i j. i < length learnimg \<longrightarrow> j < length (learnimg ! i) \<longrightarrow>
                astype_float imageroi' ! i ! j
                  = 9 / 10 * (astype_float imageroi ! i ! j)
                    + 1 / 10 * of_int (uint (learnimg ! i ! j))
                \<and> (astype_float imageroi' ! i ! j = of_int (uint (learnimg ! i ! j))
                     \<longleftrightarrow> astype_float imageroi ! i ! j = of_int (uint (learnimg ! i ! j))))"
  proof (intro exI conjI allI impI)
    show "?learnimg = ?learnimg" ..
    show "blend imageroi ?learnimg = Inr imageroi'"
      by (rule b)
  next
    fix i j
    assume ij: "i < length ?learnimg" "j < length (?learnimg ! i)"
    show px: "astype_float imageroi' ! i ! j
                = 9 / 10 * (astype_float imageroi ! i ! j)
                  + 1 / 10 * of_int (uint (?learnimg ! i ! j))"
      using b ij by (rule blend_pixel)
    show "astype_float imageroi' ! i ! j = of_int (uint (?learnimg ! i ! j))
            \<longleftrightarrow> astype_float imageroi ! i ! j = of_int (uint (?learnimg ! i ! j))"
      using px by (rule blend_fixed_point)
  qed
next
  show "blend (U8 (replicate h (replicate w 100))) (replicate h (replicate w 200))
       = Inr (F64 (replicate h (replicate w 110)))"
    by (rule blend_constant)
qed

lemmas locator_eval =
  get_x_y_def get_x_y_features_def np_shape_def shape_def clamp_check_def crop_def py_slice_def
  roi_diff_def blend_def astype_int8_def astype_float_def same_shape_def np_absolute_def
  np_sum_int8_def np_sum_def np_div_def Let_def search_loop.simps

lemma accepted_example:
  "get_x_y ''Features'' 3 cv ft [[110]] ((0, 0), (1, 1)) (U8 [[100]])
   = Inr (((0, 0), (1, 1)), F64 [[101]], True)"
  by (simp add: locator_eval)

theorem template_blend_law_witness:
  "get_x_y ''Features'' 3 \<lparr>thresh = [], m00 = 0, m10 = 0, m01 = 0\<rparr> False
      [[110]] ((0, 0), (1, 1)) (U8 [[100]])
   = Inr (((0, 0), (1, 1)), F64 [[101]], True)
   \<and> blend (U8 [[100]]) (crop [[110]] 0 1 0 1) = Inr (F64 [[101]])
   \<and> astype_float (F64 [[101]]) ! 0 ! 0 = 9 / 10 * (astype_float (U8 [[100]]) ! 0 ! 0)
                                              + 1 / 10 * of_int (uint ([[110 :: 8 word]] ! 0 ! 0))"
proof -
  let ?cv = "\<lparr>thresh = [], m00 = 0, m10 = 0, m01 = 0\<rparr>"
  have acc: "get_x_y ''Features'' 3 ?cv False [[110]] ((0, 0), (1, 1)) (U8 [[100]])
             = Inr (((0, 0), (1, 1)), F64 [[101]], True)"
    by (rule accepted_example)
  have c: "crop [[110 :: 8 word]] 0 1 0 1 = [[110]]"
    by (simp add: crop_def py_slice_def)
  from template_blend_law [of 3 ?cv False "[[110]]" "((0, 0), (1, 1))" "U8 [[100]]"
      "((0, 0), (1, 1))" "F64 [[101]]" 0 0] acc
  have law: "blend (U8 [[100]]) (crop [[110]] 0 1 0 1) = Inr (F64 [[101]])
     \<and> (\<forall>i j. i < length (crop [[110 :: 8 word]] 0 1 0 1)
            \<longrightarrow> j < length (crop [[110 :: 8 word]] 0 1 0 1 ! i)
            \<longrightarrow> astype_float (F64 [[101]]) ! i ! j
                 = 9 / 10 * (astype_float (U8 [[100]]) ! i ! j)
                   + 1 / 10 * of_int (uint (crop [[110 :: 8 word]] 0 1 0 1 ! i ! j)))"
    by simp
  then have "astype_float (F64 [[101]]) ! 0 ! 0
                 = 9 / 10 * (astype_float (U8 [[100]]) ! 0 ! 0)
                   + 1 / 10 * of_int (uint (crop [[110 :: 8 word]] 0 1 0 1 ! 0 ! 0))"
    unfolding c by simp
  with acc law show ?thesis
    unfolding c by simp
qed

text \<open>
  The acceptance test of line 112 reads the variable \<open>finalroidiff\<close>: the target is reported
  found exactly when the search's final minimum of the scores of lines 86-91 is below 20,
  and when it is not, the ROI and the template come back as they were passed in. The
  strategy returns, whatever the deadline, on every rectangular frame that is at least as
  large as the template.
\<close>

lemma found_iff_finalroidiff_below_20:
  "(get_x_y ''Features'' deadline cv ft img roibox imageroi = Inr (roibox', imageroi', found) \<longrightarrow>
      (\<exists>st. search_loop img imageroi (fst (fst roibox)) (snd (fst roibox))
               \<lparr>finalroidiff = PInf, difflowered = False, searchxy2 = None, clock = deadline\<rparr>
             = Inr st
           \<and> found = np_less (finalroidiff st) (Fin 20)
           \<and> (if found then True else roibox' = roibox \<and> imageroi' = imageroi)))
   \<and> (template_fits img imageroi \<longrightarrow>
        (\<exists>r t f. get_x_y ''Features'' deadline cv ft img roibox imageroi = Inr (r, t, f)))"
proof (intro conjI impI)
  assume "get_x_y ''Features'' deadline cv ft img roibox imageroi = Inr (roibox', imageroi', found)"
  then show "\<exists>st. search_loop img imageroi (fst (fst roibox)) (snd (fst roibox))
               \<lparr>finalroidiff = PInf, difflowered = False, searchxy2 = None, clock = deadline\<rparr>
             = Inr st
           \<and> found = np_less (finalroidiff st) (Fin 20)
           \<and> (if found then True else roibox' = roibox \<and> imageroi' = imageroi)"
    by (auto simp: get_x_y_def get_x_y_features_def Let_def
        split: sum.splits if_splits option.splits)
next
  assume "template_fits img imageroi"
  from get_x_y_features_returns [OF this, of deadline roibox]
  show "\<exists>r t f. get_x_y ''Features'' deadline cv ft img roibox imageroi = Inr (r, t, f)"
    by (auto simp: get_x_y_def)
qed

text \<open>
  The fallback example of the specification: a window of 65 against a template of 100
  scores 35, and the ROI and the template are returned unchanged.
\<close>

lemma not_found_example:
  "get_x_y ''Features'' 3 cv ft [[65]] ((0, 0), (1, 1)) (U8 [[100]])
   = Inr (((0, 0), (1, 1)), U8 [[100]], False)"
  by (simp add: locator_eval)

text \<open>
  The score that is compared with 20 is the one of lines 86-91, through the \<open>int8\<close> casts.
  A frame of constant 40 and a template of constant 255, of any sizes: every candidate
  window is constant 40, the casts give 40 and \<open>-1\<close>, each pixel differs by 41 and every
  window scores \<open>41 / 255 * 100\<close>, about 16.1. The absolute pixel difference is 215 per
  pixel, and the normalized difference \<open>215 / 255 * 100\<close>, about 84.3.
\<close>

lemma py_slice_replicate:
  assumes "0 \<le> a" and "a \<le> b" and "b \<le> int n"
  shows "py_slice a b (replicate n v) = replicate (nat (b - a)) v"
  using assms by (auto simp: py_slice_def Let_def min_def max_def)

lemma crop_uniform:
  assumes "0 \<le> y" and "0 \<le> h" and "y + h \<le> int H" and "0 \<le> x" and "0 \<le> w" and "x + w \<le> int W"
  shows "crop (replicate H (replicate W v)) y (y + h) x (x + w) = replicate (nat h) (replicate (nat w) v)"
proof -
  have rows: "py_slice y (y + h) (replicate H (replicate W v)) = replicate (nat h) (replicate W v)"
    using py_slice_replicate [of y "y + h" H "replicate W v"] assms(1-3) by simp
  have cols: "py_slice x (x + w) (replicate W v) = replicate (nat w) v"
    using py_slice_replicate [of x "x + w" W v] assms(4-6) by simp
  show ?thesis
    by (simp add: crop_def rows cols)
qed

lemma uniform_candidate_window:
  assumes "h \<le> H" and "w \<le> W"
  shows "crop (replicate H (replicate W v))
           (clamp_check ycheck (int H - int h)) (clamp_check ycheck (int H - int h) + int h)
           (clamp_check xcheck (int W - int w)) (clamp_check xcheck (int W - int w) + int w)
         = replicate h (replicate w v)"
proof -
  have y: "0 \<le> clamp_check ycheck (int H - int h)" "clamp_check ycheck (int H - int h) + int h \<le> int H"
    using assms(1) clamp_check_bounds [of "int H - int h" ycheck] by simp_all
  have x: "0 \<le> clamp_check xcheck (int W - int w)" "clamp_check xcheck (int W - int w) + int w \<le> int W"
    using assms(2) clamp_check_bounds [of "int W - int w" xcheck] by simp_all
  show ?thesis
    using crop_uniform [OF y(1) _ y(2) x(1) _ x(2), of v] by simp
qed

lemma np_shape_uniform:
  "0 < h \<Longrightarrow> np_shape (U8 (replicate h (replicate w t))) = (int h, int w)"
  by (simp add: np_shape_def shape_replicate)

lemma roi_diff_uniform:
  assumes "0 < h" and "0 < w"
  shows "roi_diff (replicate h (replicate w 40)) (U8 (replicate h (replicate w 255)))
         = Inr (Fin (820 / 51))"
proof -
  have a: "np_absolute (- 215 :: 8 word) = 41"
    by (simp add: np_absolute_def)
  have s: "sint (41 :: 8 word) = 41"
    by simp
  have n: "np_sum_int8 (replicate h (replicate w 41)) = int h * (int w * 41)"
    by (simp add: np_sum_int8_def sum_list_replicate s)
  have t: "np_sum (U8 (replicate h (replicate w 255))) = real h * (real w * 255)"
    by (simp add: np_sum_def astype_float_def sum_list_replicate)
  have q: "real_of_int (int h * (int w * 41)) / (real h * (real w * 255)) * 100 = 820 / 51"
    using assms by (simp add: field_simps)
  show ?thesis
    using assms
    by (simp add: roi_diff_def astype_int8_def same_shape_def Let_def a n t np_div_def q)
qed

lemma spec_score_uniform:
  assumes "0 < h" and "0 < w"
  shows "spec_score (replicate h (replicate w 40)) (replicate h (replicate w 255)) = 4300 / 51"
proof -
  have p: "\<bar>uint (40 :: 8 word) - uint (255 :: 8 word)\<bar> = 215" and t: "uint (255 :: 8 word) = 255"
    by simp_all
  have q: "real_of_int (int h * (int w * 215)) / real_of_int (int h * (int w * 255)) * 100 = 4300 / 51"
    using assms by (simp add: field_simps)
  show ?thesis
    using assms by (simp add: spec_score_def sum_list_replicate p t q)
qed

lemma blend_uniform:
  "blend (U8 (replicate h (replicate w 255))) (replicate h (replicate w 40))
   = Inr (F64 (replicate h (replicate w (467 / 2))))"
  by (simp add: blend_def astype_float_def same_shape_def)

lemma uniform_min_clock [simp]: "uniform_min p (st\<lparr>clock := k\<rparr>) = uniform_min p st"
  by (simp add: uniform_min_def)

lemma uniform_min_difflowered [simp]: "uniform_min p (st\<lparr>difflowered := b\<rparr>) = uniform_min p st"
  by (simp add: uniform_min_def)

lemma scan_x_uniform_step:
  assumes "0 < h" and "h \<le> H" and "0 < w" and "w \<le> W"
  shows "scan_x (replicate H (replicate W 40)) (U8 (replicate h (replicate w 255)))
           (xcheck # xs) ycheck st
         = (let x = clamp_check xcheck (int W - int w);
                y = clamp_check ycheck (int H - int h);
                st1 = (if np_less (Fin (820 / 51)) (finalroidiff st)
                       then st\<lparr>finalroidiff := Fin (820 / 51), searchxy2 := Some (x, y),
                               difflowered := True\<rparr>
                       else st)
            in if clock st1 = 0 then Inr st1
               else scan_x (replicate H (replicate W 40)) (U8 (replicate h (replicate w 255)))
                      xs y (st1\<lparr>clock := clock st1 - 1\<rparr>))"
proof -
  have H: "0 < H"
    using assms(1,2) by simp
  show ?thesis
    by (simp only: scan_x.simps shape_replicate [OF H] np_shape_uniform [OF assms(1)] fst_conv
        snd_conv Let_def uniform_candidate_window [OF assms(2,4)]
        roi_diff_uniform [OF assms(1,3)] sum.case)
qed

lemma scan_x_keeps:
  assumes "0 < h" and "h \<le> H" and "0 < w" and "w \<le> W" and "uniform_min p st"
  shows "\<exists>st'. scan_x (replicate H (replicate W 40)) (U8 (replicate h (replicate w 255)))
                 xs ycheck st = Inr st' \<and> uniform_min p st'"
  using assms(5)
proof (induction xs arbitrary: ycheck st)
  case Nil
  then show ?case by simp
next
  case (Cons xcheck xs)
  from Cons.prems have same: "\<not> np_less (Fin (820 / 51)) (finalroidiff st)"
    by (simp add: uniform_min_def)
  have keep: "uniform_min p (st\<lparr>clock := clock st - 1\<rparr>)"
    using Cons.prems by simp
  show ?case
  proof (cases "clock st = 0")
    case True
    with same Cons.prems show ?thesis
      by (subst scan_x_uniform_step [OF assms(1-4)]) (simp add: Let_def)
  next
    case False
    with same Cons.IH [OF keep] show ?thesis
      by (subst scan_x_uniform_step [OF assms(1-4)]) (simp add: Let_def)
  qed
qed

lemma scan_x_first:
  assumes "0 < h" and "h \<le> H" and "0 < w" and "w \<le> W" and "finalroidiff st = PInf"
  shows "\<exists>st'. scan_x (replicate H (replicate W 40)) (U8 (replicate h (replicate w 255)))
                 (xcheck # xs) ycheck st = Inr st'
           \<and> uniform_min (clamp_check xcheck (int W - int w), clamp_check ycheck (int H - int h)) st'"
proof -
  let ?p = "(clamp_check xcheck (int W - int w), clamp_check ycheck (int H - int h))"
  define st1 where "st1 = st\<lparr>finalroidiff := Fin (820 / 51), searchxy2 := Some ?p, difflowered := True\<rparr>"
  have m: "uniform_min ?p st1" "uniform_min ?p (st1\<lparr>clock := clock st1 - 1\<rparr>)"
    by (simp_all add: st1_def uniform_min_def)
  have step: "scan_x (replicate H (replicate W 40)) (U8 (replicate h (replicate w 255)))
                (xcheck # xs) ycheck st
              = (if clock st1 = 0 then Inr st1
                 else scan_x (replicate H (replicate W 40)) (U8 (replicate h (replicate w 255)))
                        xs (clamp_check ycheck (int H - int h)) (st1\<lparr>clock := clock st1 - 1\<rparr>))"
    using assms(5) by (subst scan_x_uniform_step [OF assms(1-4)]) (simp add: Let_def st1_def)
  show ?thesis
  proof (cases "clock st1 = 0")
    case True
    with step m(1) show ?thesis by simp
  next
    case False
    with step scan_x_keeps [OF assms(1-4) m(2), of xs "clamp_check ycheck (int H - int h)"]
    show ?thesis by simp
  qed
qed

lemma scan_y_keeps:
  assumes "0 < h" and "h \<le> H" and "0 < w" and "w \<le> W" and "uniform_min p st"
  shows "\<exists>st'. scan_y (replicate H (replicate W 40)) (U8 (replicate h (replicate w 255)))
                 ys xr st = Inr st' \<and> uniform_min p st'"
  using assms(5)
proof (induction ys arbitrary: st)
  case Nil
  then show ?case by simp
next
  case (Cons ycheck ys)
  show ?case
  proof (cases "clock st = 0")
    case True
    with Cons.prems show ?thesis by simp
  next
    case False
    have "uniform_min p (st\<lparr>clock := clock st - 1\<rparr>)"
      using Cons.prems by simp
    from scan_x_keeps [OF assms(1-4) this, of xr ycheck] obtain st1 where
      s1: "scan_x (replicate H (replicate W 40)) (U8 (replicate h (replicate w 255)))
             xr ycheck (st\<lparr>clock := clock st - 1\<rparr>) = Inr st1" and
      m1: "uniform_min p st1"
      by blast
    from Cons.IH [OF m1] False s1 show ?thesis
      by simp
  qed
qed

lemma scan_y_first:
  assumes "0 < h" and "h \<le> H" and "0 < w" and "w \<le> W"
    and "finalroidiff st = PInf" and "clock st \<noteq> 0"
  shows "\<exists>st'. scan_y (replicate H (replicate W 40)) (U8 (replicate h (replicate w 255)))
                 (ycheck # ys) (xcheck # xr) st = Inr st'
           \<and> uniform_min (clamp_check xcheck (int W - int w), clamp_check ycheck (int H - int h)) st'"
proof -
  have "finalroidiff (st\<lparr>clock := clock st - 1\<rparr>) = PInf"
    using assms(5) by simp
  from scan_x_first [OF assms(1-4) this, of xcheck xr ycheck] obtain st1 where
    s1: "scan_x (replicate H (replicate W 40)) (U8 (replicate h (replicate w 255)))
           (xcheck # xr) ycheck (st\<lparr>clock := clock st - 1\<rparr>) = Inr st1" and
    m1: "uniform_min (clamp_check xcheck (int W - int w), clamp_check ycheck (int H - int h)) st1"
    by blast
  from scan_y_keeps [OF assms(1-4) m1, of ys "xcheck # xr"] assms(6) s1 show ?thesis
    by simp
qed

lemma search_loop_keeps:
  assumes "0 < h" and "h \<le> H" and "0 < w" and "w \<le> W" and "uniform_min p st"
    and "img = replicate H (replicate W 40)" and "imageroi = U8 (replicate h (replicate w 255))"
  shows "\<exists>st'. search_loop img imageroi searchx1 searchy1 st = Inr st' \<and> uniform_min p st'"
  using assms(5,6,7)
proof (induction img imageroi searchx1 searchy1 st rule: search_loop.induct)
  case (1 img imageroi searchx1 searchy1 st)
  from scan_y_keeps [OF assms(1-4) "1.prems"(1), of "[searchy1 - 15 .. searchy1 + 14]"
      "[searchx1 - 15 .. searchx1 + 14]"] "1.prems"(2,3)
  obtain st1 where
    s1: "scan_y img imageroi [searchy1 - 15 .. searchy1 + 14] [searchx1 - 15 .. searchx1 + 14] st
         = Inr st1" and
    m1: "uniform_min p st1"
    by auto
  define st2 where "st2 = st1\<lparr>difflowered := False\<rparr>"
  have m2: "uniform_min p st2" "uniform_min p (st2\<lparr>clock := clock st2 - 1\<rparr>)"
    using m1 by (simp_all add: st2_def)
  have step: "search_loop img imageroi searchx1 searchy1 st
              = (if clock st2 = 0 then Inr st2
                 else if difflowered st1
                      then search_loop img imageroi searchx1 searchy1 (st2\<lparr>clock := clock st2 - 1\<rparr>)
                      else Inr (st2\<lparr>clock := clock st2 - 1\<rparr>))"
    by (subst search_loop.simps) (simp add: s1 Let_def st2_def)
  show ?case
  proof (cases "clock st2 \<noteq> 0 \<and> difflowered st1")
    case True
    then have c: "clock st2 \<noteq> 0" and k: "difflowered st1"
      by simp_all
    from "1.IH" [OF s1 refl st2_def c k m2(2) "1.prems"(2,3)] step c k show ?thesis
      by simp
  next
    case False
    with step m2 show ?thesis
      by auto
  qed
qed

lemma search_loop_first:
  assumes "0 < h" and "h \<le> H" and "0 < w" and "w \<le> W"
    and "finalroidiff st = PInf" and "clock st \<noteq> 0"
  shows "\<exists>st'. search_loop (replicate H (replicate W 40)) (U8 (replicate h (replicate w 255)))
                 searchx1 searchy1 st = Inr st'
           \<and> uniform_min (clamp_check (searchx1 - 15) (int W - int w),
                           clamp_check (searchy1 - 15) (int H - int h)) st'"
proof -
  let ?img = "replicate H (replicate W (40 :: 8 word))"
  let ?roi = "U8 (replicate h (replicate w 255))"
  let ?p = "(clamp_check (searchx1 - 15) (int W - int w), clamp_check (searchy1 - 15) (int H - int h))"
  have xr: "[searchx1 - 15 .. searchx1 + 14] = (searchx1 - 15) # [searchx1 - 15 + 1 .. searchx1 + 14]"
    by (rule upto_rec1) simp
  have yr: "[searchy1 - 15 .. searchy1 + 14] = (searchy1 - 15) # [searchy1 - 15 + 1 .. searchy1 + 14]"
    by (rule upto_rec1) simp
  from scan_y_first [OF assms, of "searchy1 - 15" "[searchy1 - 15 + 1 .. searchy1 + 14]"
      "searchx1 - 15" "[searchx1 - 15 + 1 .. searchx1 + 14]"]
  obtain st1 where
    s1: "scan_y ?img ?roi [searchy1 - 15 .. searchy1 + 14] [searchx1 - 15 .. searchx1 + 14] st
         = Inr st1" and
    m1: "uniform_min ?p st1"
    unfolding xr [symmetric] yr [symmetric] by blast
  define st2 where "st2 = st1\<lparr>difflowered := False\<rparr>"
  have m2: "uniform_min ?p st2" "uniform_min ?p (st2\<lparr>clock := clock st2 - 1\<rparr>)"
    using m1 by (simp_all add: st2_def)
  have step: "search_loop ?img ?roi searchx1 searchy1 st
              = (if clock st2 = 0 then Inr st2
                 else if difflowered st1
                      then search_loop ?img ?roi searchx1 searchy1 (st2\<lparr>clock := clock st2 - 1\<rparr>)
                      else Inr (st2\<lparr>clock := clock st2 - 1\<rparr>))"
    by (subst search_loop.simps) (simp add: s1 Let_def st2_def)
  show ?thesis
  proof (cases "clock st2 \<noteq> 0 \<and> difflowered st1")
    case True
    with step search_loop_keeps [OF assms(1-4) m2(2) refl refl, of searchx1 searchy1]
    show ?thesis by simp
  next
    case False
    with step m2 show ?thesis
      by auto
  qed
qed

text \<open>
  On such a frame the match is accepted whenever the deadline leaves time for one window:
  the first window scored, at the corner of the neighbourhood, stays the minimum, the ROI
  moves there and the template is blended with the patch (\<open>0.9 * 255 + 0.1 * 40 = 233.5\<close>).
\<close>

lemma uniform_frame_accepted:
  assumes "0 < h" and "h \<le> H" and "0 < w" and "w \<le> W" and "deadline \<noteq> 0"
  shows "get_x_y_features deadline (replicate H (replicate W 40)) roibox
           (U8 (replicate h (replicate w 255)))
         = Inr (((clamp_check (fst (fst roibox) - 15) (int W - int w),
                  clamp_check (snd (fst roibox) - 15) (int H - int h)),
                 (clamp_check (fst (fst roibox) - 15) (int W - int w) + int w,
                  clamp_check (snd (fst roibox) - 15) (int H - int h) + int h)),
                F64 (replicate h (replicate w (467 / 2))), True)"
proof -
  let ?st0 = "\<lparr>finalroidiff = PInf, difflowered = False, searchxy2 = None, clock = deadline\<rparr>"
  let ?x = "clamp_check (fst (fst roibox) - 15) (int W - int w)"
  let ?y = "clamp_check (snd (fst roibox) - 15) (int H - int h)"
  have "finalroidiff ?st0 = PInf" and "clock ?st0 \<noteq> 0"
    using assms(5) by simp_all
  from search_loop_first [OF assms(1-4) this, of "fst (fst roibox)" "snd (fst roibox)"]
  obtain st where
    run: "search_loop (replicate H (replicate W 40)) (U8 (replicate h (replicate w 255)))
            (fst (fst roibox)) (snd (fst roibox)) ?st0 = Inr st" and
    m: "uniform_min (?x, ?y) st"
    by blast
  from m have f: "finalroidiff st = Fin (820 / 51)" and xy: "searchxy2 st = Some (?x, ?y)"
    by (simp_all add: uniform_min_def)
  have learnimg: "crop (replicate H (replicate W 40)) ?y (?y + int h) ?x (?x + int w)
                  = replicate h (replicate w (40 :: 8 word))"
    using assms(2,4) by (rule uniform_candidate_window)
  show ?thesis
    by (simp add: get_x_y_features_def Let_def run f xy np_shape_uniform [OF assms(1)] learnimg
        blend_uniform)
qed

lemma one_pixel_accepted:
  "get_x_y ''Features'' 3 cv ft [[40]] ((0, 0), (1, 1)) (U8 [[255]])
   = Inr (((0, 0), (1, 1)), F64 [[467 / 2]], True)
   \<and> roi_diff [[40]] (U8 [[255]]) = Inr (Fin (820 / 51))
   \<and> spec_score [[40]] [[255]] = 4300 / 51"
  by (simp add: locator_eval spec_score_def)

text \<open>
  C6. The claim: in the feature strategy the target is reported found exactly when the
  final minimum normalized difference score is below 20 percent, and otherwise the ROI
  comes back unchanged. The code on a frame of 640 by 480 pixels of constant 40, a template
  of 50 by 50 pixels of constant 255 and a ROI at \<open>(100, 100)\<close>: every candidate window of
  the search is the patch of constant 40; through the \<open>int8\<close> casts of lines 86-87 it scores
  \<open>820 / 51\<close>, about 16.1, which is below 20; the target is reported found, the ROI moves
  to \<open>(85, 85)\<close> and the template is blended. The normalized absolute difference of that
  patch and the template is \<open>4300 / 51\<close>, about 84.3 percent, which is not below 20.
\<close>

theorem feature_match_found_at_84_percent_difference:
  "get_x_y ''Features'' 1000 \<lparr>thresh = [], m00 = 0, m10 = 0, m01 = 0\<rparr> False
      (replicate 480 (replicate 640 40)) ((100, 100), (150, 150))
      (U8 (replicate 50 (replicate 50 255)))
   = Inr (((85, 85), (135, 135)), F64 (replicate 50 (replicate 50 (467 / 2))), True)
   \<and> (\<forall>xcheck ycheck.
        crop (replicate 480 (replicate 640 40))
          (clamp_check ycheck (480 - 50)) (clamp_check ycheck (480 - 50) + 50)
          (clamp_check xcheck (640 - 50)) (clamp_check xcheck (640 - 50) + 50)
        = replicate 50 (replicate 50 (40 :: 8 word)))
   \<and> roi_diff (replicate 50 (replicate 50 40)) (U8 (replicate 50 (replicate 50 255)))
     = Inr (Fin (820 / 51))
   \<and> (820 / 51 :: real) < 20
   \<and> spec_score (replicate 50 (replicate 50 40)) (replicate 50 (replicate 50 255)) = 4300 / 51
   \<and> \<not> spec_score (replicate 50 (replicate 50 40)) (replicate 50 (replicate 50 255)) < 20"
proof (intro conjI allI)
  have "get_x_y_features 1000 (replicate 480 (replicate 640 40)) ((100, 100), (150, 150))
          (U8 (replicate 50 (replicate 50 255)))
        = Inr (((85, 85), (135, 135)), F64 (replicate 50 (replicate 50 (467 / 2))), True)"
    using uniform_frame_accepted [of 50 480 50 640 1000 "((100, 100), (150, 150))"]
    by (simp add: clamp_check_def)
  then show "get_x_y ''Features'' 1000 \<lparr>thresh = [], m00 = 0, m10 = 0, m01 = 0\<rparr> False
      (replicate 480 (replicate 640 40)) ((100, 100), (150, 150))
      (U8 (replicate 50 (replicate 50 255)))
   = Inr (((85, 85), (135, 135)), F64 (replicate 50 (replicate 50 (467 / 2))), True)"
    by (simp add: get_x_y_def)
next
  fix xcheck ycheck
  show "crop (replicate 480 (replicate 640 40))
          (clamp_check ycheck (480 - 50)) (clamp_check ycheck (480 - 50) + 50)
          (clamp_check xcheck (640 - 50)) (clamp_check xcheck (640 - 50) + 50)
        = replicate 50 (replicate 50 (40 :: 8 word))"
    using uniform_candidate_window [of 50 480 50 640 "40 :: 8 word" ycheck xcheck] by simp
next
  show "roi_diff (replicate 50 (replicate 50 40)) (U8 (replicate 50 (replicate 50 255)))
        = Inr (Fin (820 / 51))"
    by (rule roi_diff_uniform) simp_all
  show "(820 / 51 :: real) < 20"
    by simp
  show "spec_score (replicate 50 (replicate 50 40)) (replicate 50 (replicate 50 255)) = 4300 / 51"
    by (rule spec_score_uniform) simp_all
  then show "\<not> spec_score (replicate 50 (replicate 50 40)) (replicate 50 (replicate 50 255)) < 20"
    by simp
qed

subsection \<open>Tracking controller\<close>

text \<open>
  C10. A tracking cycle (\<open>follow\<close>, lines 494-843: the loop body after the slew block)
  with telescope type \<open>LX200\<close>, mount type \<open>Eq\<close> and visual lock leaves the controller
  as it found it: nothing is written to the serial port and the correction accumulators
  keep their values. The visual-lock branch of the LX200 tests the mount type against
  \<open>EQ\<close> (line 799), which \<open>Eq\<close> is not.
\<close>

theorem lx200_eq_visual_cycle_writes_nothing:
  assumes "telescopetype e = ''LX200''" and "mounttype e = ''Eq''" and "objectfollow e"
  shows "follow e c = Some c"
  using assms by (simp add: follow_def follow_visual_def)

lemma sat_track_cycle_after_slew: "\<not> firstslew c \<Longrightarrow> sat_track_cycle e c = follow e c"
  by (simp add: sat_track_cycle_def)

theorem lx200_eq_visual_cycle_writes_nothing_witness:
  "telescopetype (env0\<lparr>mounttype := ''Eq'', objectfollow := True\<rparr>) = ''LX200''
   \<and> mounttype (env0\<lparr>mounttype := ''Eq'', objectfollow := True\<rparr>) = ''Eq''
   \<and> objectfollow (env0\<lparr>mounttype := ''Eq'', objectfollow := True\<rparr>)
   \<and> follow (env0\<lparr>mounttype := ''Eq'', objectfollow := True\<rparr>) controller0 = Some controller0"
proof -
  let ?e = "env0\<lparr>mounttype := ''Eq'', objectfollow := True\<rparr>"
  have h: "telescopetype ?e = ''LX200''" "mounttype ?e = ''Eq''" "objectfollow ?e"
    by (simp_all add: env0_def)
  from lx200_eq_visual_cycle_writes_nothing [OF h] h show ?thesis
    by simp
qed

lemma sqrt_hundredth: "sqrt (1 / 100) = 1 / 10"
  by (rule real_sqrt_unique) (simp_all add: power2_eq_square)

text \<open>
  C2. The claim: the accumulators change only in a cycle whose total error exceeds the
  previous cycle's. The code on an LX200 in alt-azimuth mode following the ephemeris:
  every 101st cycle (line 584) adds the current error to \<open>altcorrect\<close> and \<open>azcorrect\<close>
  without comparing it with \<open>lasttotaldiff\<close> (lines 592-593). Here the previous error
  is 1, the new one is 1/10, and \<open>altcorrect\<close> goes from 0 to 1/10.
\<close>

theorem lx200_altaz_accumulates_while_error_shrinks:
  "\<exists>c'. follow (env0\<lparr>sat_now := ephem0\<lparr>sat_alt := 1 / 10\<rparr>\<rparr>)
            (controller0\<lparr>cycle_i := 100, lasttotaldiff := 1,
                         ser_in := [(0, 0, 0), (0, 0, 0), (180, 0, 0)]\<rparr>) = Some c'
        \<and> lasttotaldiff c' = 1 / 10
        \<and> altcorrect c' = 1 / 10
        \<and> azcorrect c' = 0"
  by (simp add: follow_def follow_ephem_def follow_lx200_altaz_def env0_def controller0_def
      ephem0_def LX200_alt_degrees_def LX200_az_degrees_def lx200_query_def respdegrees_def
      sataz_flip_def degrees_def radians_def ser_write_def Let_def sqrt_hundredth)

lemma lx200_query_state:
  "lx200_query q c = Some (r, c') \<Longrightarrow> \<exists>l i. c' = c\<lparr>ser_log := l, ser_in := i\<rparr>"
  by (auto simp: lx200_query_def split: list.splits)

lemma LX200_alt_degrees_state:
  "LX200_alt_degrees c = Some (r, c') \<Longrightarrow> \<exists>l i. c' = c\<lparr>ser_log := l, ser_in := i\<rparr>"
  by (auto simp: LX200_alt_degrees_def split: bind_splits dest: lx200_query_state)

lemma LX200_az_degrees_state:
  "LX200_az_degrees c = Some (r, c') \<Longrightarrow> \<exists>l i. c' = c\<lparr>ser_log := l, ser_in := i\<rparr>"
  by (auto simp: LX200_az_degrees_def split: bind_splits dest: lx200_query_state)

lemma LX200_dec_degrees_state:
  "LX200_dec_degrees c = Some (r, c') \<Longrightarrow> \<exists>l i. c' = c\<lparr>ser_log := l, ser_in := i\<rparr>"
  by (auto simp: LX200_dec_degrees_def split: bind_splits dest: lx200_query_state)

lemma LX200_ra_degrees_state:
  "LX200_ra_degrees c = Some (r, c') \<Longrightarrow> \<exists>l i. c' = c\<lparr>ser_log := l, ser_in := i\<rparr>"
  by (auto simp: LX200_ra_degrees_def split: bind_splits dest: lx200_query_state)

lemma follow_lx200_eq_growth:
  assumes "follow_lx200_eq e c = Some c'"
    and "deccorrect c' \<noteq> deccorrect c \<or> racorrect c' \<noteq> racorrect c"
  shows "lasttotaldiff c < lasttotaldiff c'"
  using assms
  by (auto simp: follow_lx200_eq_def Let_def ser_write_def split: bind_splits if_splits
      dest!: LX200_dec_degrees_state LX200_ra_degrees_state)

lemma visual_lx200_altaz_growth:
  assumes "visual_lx200_altaz e c = Some c'"
    and "altcorrect c' \<noteq> altcorrect c \<or> azcorrect c' \<noteq> azcorrect c"
  shows "lasttotaldiff c < lasttotaldiff c'"
  using assms
  by (auto simp: visual_lx200_altaz_def Let_def ser_write_def
      split: bind_splits if_splits sum.splits prod.splits
      dest!: LX200_alt_degrees_state LX200_az_degrees_state)

lemma sat_track_start_resets:
  "altcorrect (sat_track_start c) = 0 \<and> azcorrect (sat_track_start c) = 0
   \<and> deccorrect (sat_track_start c) = 0 \<and> racorrect (sat_track_start c) = 0
   \<and> firstslew (sat_track_start c)"
  by (simp add: sat_track_start_def)

lemma clamp_rate_bounds:
  assumes "0 \<le> L"
  shows "- L \<le> clamp_rate r L" and "clamp_rate r L \<le> L"
  using assms by (auto simp: clamp_rate_def Let_def)

lemma tel_extends_refl: "tel_extends c c"
  by (simp add: tel_extends_def)

lemma tel_extends_trans: "tel_extends a b \<Longrightarrow> tel_extends b c \<Longrightarrow> tel_extends a c"
  by (auto simp: tel_extends_def)

lemma same_tel_extends: "same_tel c c' \<Longrightarrow> tel_extends c c'"
  by (simp add: same_tel_def tel_extends_def)

lemma same_tel_refl: "same_tel c c"
  by (simp add: same_tel_def)

lemma same_tel_trans: "same_tel a b \<Longrightarrow> same_tel b c \<Longrightarrow> same_tel a c"
  by (simp add: same_tel_def)

lemma LX200_alt_degrees_same_tel: "LX200_alt_degrees c = Some (r, c') \<Longrightarrow> same_tel c c'"
  by (auto simp: same_tel_def dest!: LX200_alt_degrees_state)

lemma LX200_az_degrees_same_tel: "LX200_az_degrees c = Some (r, c') \<Longrightarrow> same_tel c c'"
  by (auto simp: same_tel_def dest!: LX200_az_degrees_state)

lemma LX200_dec_degrees_same_tel: "LX200_dec_degrees c = Some (r, c') \<Longrightarrow> same_tel c c'"
  by (auto simp: same_tel_def dest!: LX200_dec_degrees_state)

lemma LX200_ra_degrees_same_tel: "LX200_ra_degrees c = Some (r, c') \<Longrightarrow> same_tel c c'"
  by (auto simp: same_tel_def dest!: LX200_ra_degrees_state)

lemma slew_poll_same_tel: "slew_poll radalt radaz totaldiff c = Some c' \<Longrightarrow> same_tel c c'"
proof (induction radalt radaz totaldiff c rule: slew_poll.induct)
  case (1 radalt radaz totaldiff c)
  show ?case
  proof (cases "totaldiff > 1")
    case False
    with "1.prems" show ?thesis
      by (simp add: slew_poll.simps same_tel_refl)
  next
    case True
    with "1.prems" obtain x c1 currentalt c2 currentaz c3 where
      q1: "LX200_alt_degrees c = Some (x, c1)" and
      q2: "LX200_alt_degrees c1 = Some (currentalt, c2)" and
      q3: "LX200_az_degrees c2 = Some (currentaz, c3)" and
      rest: "slew_poll radalt radaz
               (sqrt ((degrees radalt - currentalt)\<^sup>2 + (degrees radaz - currentaz)\<^sup>2)) c3 = Some c'"
      by (subst (asm) slew_poll.simps) (auto split: option.splits)
    have "same_tel c3 c'"
      using "1.IH" [OF True q1 refl q2 refl q3 refl rest] .
    moreover have "same_tel c c3"
      using q1 q2 q3
      by (blast intro: same_tel_trans LX200_alt_degrees_same_tel LX200_az_degrees_same_tel)
    ultimately show ?thesis
      by (rule same_tel_trans [rotated])
  qed
qed

lemma ser_write_same_tel: "same_tel c (ser_write cmds c)"
  by (simp add: same_tel_def ser_write_def)

lemma slew_lx200_same_tel: "slew_lx200 e c = Some c' \<Longrightarrow> same_tel c c'"
  by (auto simp: slew_lx200_def Let_def same_tel_def ser_write_def
      split: bind_splits if_splits
      dest!: LX200_alt_degrees_state LX200_az_degrees_state slew_poll_same_tel)

lemma follow_lx200_altaz_same_tel: "follow_lx200_altaz e c = Some c' \<Longrightarrow> same_tel c c'"
  by (auto simp: follow_lx200_altaz_def Let_def same_tel_def ser_write_def
      split: bind_splits if_splits
      dest!: LX200_alt_degrees_state LX200_az_degrees_state)

lemma follow_lx200_eq_same_tel: "follow_lx200_eq e c = Some c' \<Longrightarrow> same_tel c c'"
  by (auto simp: follow_lx200_eq_def Let_def same_tel_def ser_write_def
      split: bind_splits if_splits
      dest!: LX200_dec_degrees_state LX200_ra_degrees_state)

lemma visual_lx200_altaz_same_tel: "visual_lx200_altaz e c = Some c' \<Longrightarrow> same_tel c c'"
  by (auto simp: visual_lx200_altaz_def Let_def same_tel_def ser_write_def
      split: bind_splits if_splits sum.splits prod.splits
      dest!: LX200_alt_degrees_state LX200_az_degrees_state)

lemma visual_lx200_EQ_try_same_tel: "same_tel c (visual_lx200_EQ_try e teldec currentdec c)"
  by (auto simp: visual_lx200_EQ_try_def Let_def same_tel_def
      split: sum.splits prod.splits option.splits if_splits)

lemma visual_lx200_EQ_same_tel: "visual_lx200_EQ e c = Some c' \<Longrightarrow> same_tel c c'"
proof -
  assume run: "visual_lx200_EQ e c = Some c'"
  show ?thesis
  proof (cases "dnow e > dlast c")
    case False
    with run show ?thesis
      by (auto simp: visual_lx200_EQ_def Let_def same_tel_def ser_write_def)
  next
    case True
    with run obtain x c1 teldec c2 telra c3 where
      q1: "LX200_dec_degrees c = Some (x, c1)" and
      q2: "LX200_dec_degrees c1 = Some (teldec, c2)" and
      q3: "LX200_ra_degrees c2 = Some (telra, c3)" and
      c': "c' = ser_write (goto_radec (sat_ra (sat_now e) + racorrect (visual_lx200_EQ_try e teldec (radians teldec) c3))
                                    (sat_dec (sat_now e) + deccorrect (visual_lx200_EQ_try e teldec (radians teldec) c3)))
                 ((visual_lx200_EQ_try e teldec (radians teldec) c3)\<lparr>dlast := dnow e\<rparr>)"
      by (auto simp: visual_lx200_EQ_def Let_def split: bind_splits)
    have "same_tel c c3"
      using q1 q2 q3
      by (blast intro: same_tel_trans LX200_dec_degrees_same_tel LX200_ra_degrees_same_tel)
    moreover have "same_tel c3 c'"
      using visual_lx200_EQ_try_same_tel [of c3 e teldec "radians teldec"]
      unfolding c' by (simp add: same_tel_def ser_write_def)
    ultimately show ?thesis
      by (rule same_tel_trans)
  qed
qed

lemma slew_ascom_extends:
  assumes "0 \<le> axis0rate c" and "0 \<le> axis1rate c"
  shows "tel_extends c (slew_ascom e c)"
  using assms
  by (simp add: slew_ascom_def Let_def tel_extends_def tel_call_def clamp_rate_bounds)

lemma follow_ascom_altaz_extends:
  assumes "0 \<le> axis0rate c" and "0 \<le> axis1rate c"
  shows "tel_extends c (follow_ascom_altaz e c)"
  using assms
  by (simp add: follow_ascom_altaz_def Let_def tel_extends_def tel_call_def clamp_rate_bounds)

lemma follow_ascom_eq_extends:
  assumes "0 \<le> axis0rate c" and "0 \<le> axis1rate c"
  shows "tel_extends c (follow_ascom_eq e c)"
  using assms
  by (simp add: follow_ascom_eq_def Let_def tel_extends_def tel_call_def clamp_rate_bounds)

lemma visual_ascom_altaz_extends:
  assumes "0 \<le> axis0rate c" and "0 \<le> axis1rate c"
  shows "tel_extends c (visual_ascom_altaz e c)"
  using assms
  by (simp add: visual_ascom_altaz_def Let_def tel_extends_def tel_call_def clamp_rate_bounds
      split: sum.splits prod.splits)

lemma visual_ascom_eq_extends:
  assumes "0 \<le> axis0rate c" and "0 \<le> axis1rate c"
  shows "tel_extends c (visual_ascom_eq e c)"
  using assms
  by (simp add: visual_ascom_eq_def Let_def tel_extends_def tel_call_def clamp_rate_bounds
      split: sum.splits prod.splits)

lemma tel_extends_rates:
  "tel_extends c c' \<Longrightarrow> axis0rate c' = axis0rate c \<and> axis1rate c' = axis1rate c"
  by (simp add: tel_extends_def)

lemma slew_extends:
  assumes "slew e c = Some c'" and "0 \<le> axis0rate c" and "0 \<le> axis1rate c"
  shows "tel_extends c c'"
proof -
  let ?c0 = "c\<lparr>diffazlast := 0, diffaltlast := 0, diffralast := 0, diffdeclast := 0,
                lasttotaldiff := 0\<rparr>"
  from assms(1) obtain c1 where
    c1: "(if telescopetype e = ''LX200'' then slew_lx200 e ?c0 else Some ?c0) = Some c1" and
    c': "c' = (if telescopetype e = ''ASCOM'' then slew_ascom e (c1\<lparr>firstslew := False\<rparr>)
               else c1\<lparr>firstslew := False\<rparr>)\<lparr>firstslew := False\<rparr>"
    by (auto simp: slew_def Let_def split: bind_splits)
  have "same_tel ?c0 c1"
    using c1 by (auto split: if_splits intro: slew_lx200_same_tel same_tel_refl)
  then have s1: "same_tel c (c1\<lparr>firstslew := False\<rparr>)"
    by (simp add: same_tel_def)
  then have r: "0 \<le> axis0rate (c1\<lparr>firstslew := False\<rparr>)" "0 \<le> axis1rate (c1\<lparr>firstslew := False\<rparr>)"
    using assms(2,3) by (simp_all add: same_tel_def)
  have "tel_extends (c1\<lparr>firstslew := False\<rparr>) c'"
    unfolding c' using slew_ascom_extends [OF r, of e]
    by (simp add: tel_extends_def)
  with same_tel_extends [OF s1] show ?thesis
    by (rule tel_extends_trans)
qed

lemma follow_ephem_extends:
  assumes "follow_ephem e c = Some c'" and "0 \<le> axis0rate c" and "0 \<le> axis1rate c"
  shows "tel_extends c c'"
proof -
  let ?c0 = "c\<lparr>cycle_i := cycle_i c + 1\<rparr>"
  let ?c1 = "if mounttype e = ''AltAz'' \<and> trackingsat e then follow_ascom_altaz e ?c0 else ?c0"
  let ?c2 = "if mounttype e = ''Eq'' \<and> trackingsat e then follow_ascom_eq e ?c1 else ?c1"
  let ?c3 = "if telescopetype e = ''ASCOM'' then ?c2 else ?c0"
  have r0: "0 \<le> axis0rate ?c0" "0 \<le> axis1rate ?c0"
    using assms(2,3) by simp_all
  have e0: "tel_extends c ?c0"
    by (simp add: tel_extends_def)
  have e1: "tel_extends ?c0 ?c1"
    using follow_ascom_altaz_extends [OF r0, of e] by (simp add: tel_extends_refl)
  have r1: "0 \<le> axis0rate ?c1" "0 \<le> axis1rate ?c1"
    using tel_extends_rates [OF e1] r0 by simp_all
  define c1 where "c1 = ?c1"
  have "tel_extends c1 (if mounttype e = ''Eq'' \<and> trackingsat e then follow_ascom_eq e c1 else c1)"
    using follow_ascom_eq_extends [of c1 e] r1
    unfolding c1_def [symmetric] by (simp add: tel_extends_refl)
  then have e2: "tel_extends ?c1 ?c2"
    unfolding c1_def .
  have e3: "tel_extends c ?c3"
    using e0 e1 e2 by (auto intro: tel_extends_trans)
  from assms(1) have run:
    "(if telescopetype e = ''LX200'' then
        do { c \<leftarrow> (if mounttype e = ''AltAz'' then follow_lx200_altaz e ?c3 else Some ?c3);
             (if mounttype e = ''Eq'' then follow_lx200_eq e c else Some c) }
      else Some ?c3) = Some c'"
    unfolding follow_ephem_def Let_def .
  define c3 where "c3 = ?c3"
  have "same_tel c3 c'"
    using run unfolding c3_def [symmetric]
    by (auto split: if_splits bind_splits
        intro: same_tel_refl same_tel_trans follow_lx200_altaz_same_tel follow_lx200_eq_same_tel)
  then have "same_tel ?c3 c'"
    unfolding c3_def .
  from tel_extends_trans [OF e3 same_tel_extends [OF this]] show ?thesis .
qed

lemma follow_visual_extends:
  assumes "follow_visual e c = Some c'" and "0 \<le> axis0rate c" and "0 \<le> axis1rate c"
  shows "tel_extends c c'"
proof -
  let ?c1 = "if mounttype e = ''AltAz'' \<and> trackingsat e then visual_ascom_altaz e c else c"
  let ?c2 = "if mounttype e = ''Eq'' \<and> trackingsat e then visual_ascom_eq e ?c1 else ?c1"
  let ?c3 = "if telescopetype e = ''ASCOM'' then ?c2 else c"
  have r0: "0 \<le> axis0rate c" "0 \<le> axis1rate c"
    using assms(2,3) by simp_all
  have e1: "tel_extends c ?c1"
    using visual_ascom_altaz_extends [OF r0, of e] by (simp add: tel_extends_refl)
  have r1: "0 \<le> axis0rate ?c1" "0 \<le> axis1rate ?c1"
    using tel_extends_rates [OF e1] r0 by simp_all
  define c1 where "c1 = ?c1"
  have "tel_extends c1 (if mounttype e = ''Eq'' \<and> trackingsat e then visual_ascom_eq e c1 else c1)"
    using visual_ascom_eq_extends [of c1 e] r1
    unfolding c1_def [symmetric] by (simp add: tel_extends_refl)
  then have e2: "tel_extends ?c1 ?c2"
    unfolding c1_def .
  have e3: "tel_extends c ?c3"
    using e1 e2 by (auto intro: tel_extends_trans tel_extends_refl)
  from assms(1) have run:
    "(if telescopetype e = ''LX200'' then
        do { c \<leftarrow> (if mounttype e = ''AltAz'' then visual_lx200_altaz e ?c3 else Some ?c3);
             (if mounttype e = ''EQ'' then visual_lx200_EQ e c else Some c) }
      else Some ?c3) = Some c'"
    unfolding follow_visual_def Let_def .
  define c3 where "c3 = ?c3"
  have "same_tel c3 c'"
    using run unfolding c3_def [symmetric]
    by (auto split: if_splits bind_splits
        intro: same_tel_refl same_tel_trans visual_lx200_altaz_same_tel visual_lx200_EQ_same_tel)
  then have "same_tel ?c3 c'"
    unfolding c3_def .
  from tel_extends_trans [OF e3 same_tel_extends [OF this]] show ?thesis .
qed

lemma follow_extends:
  assumes "follow e c = Some c'" and "0 \<le> axis0rate c" and "0 \<le> axis1rate c"
  shows "tel_extends c c'"
proof (cases "objectfollow e")
  case True
  with assms show ?thesis
    by (simp add: follow_def follow_visual_extends)
next
  case False
  with assms show ?thesis
    by (simp add: follow_def follow_ephem_extends)
qed

lemma sat_track_cycle_extends:
  assumes "sat_track_cycle e c = Some c'" and "0 \<le> axis0rate c" and "0 \<le> axis1rate c"
  shows "tel_extends c c'"
proof -
  from assms(1) obtain c1 where
    c1: "(if firstslew c then slew e c else Some c) = Some c1" and f: "follow e c1 = Some c'"
    by (auto simp: sat_track_cycle_def split: bind_splits)
  have e1: "tel_extends c c1"
    using c1 assms(2,3) by (auto split: if_splits intro: slew_extends tel_extends_refl)
  then have "0 \<le> axis0rate c1" "0 \<le> axis1rate c1"
    using assms(2,3) by (simp_all add: tel_extends_def)
  from follow_extends [OF f this] have "tel_extends c1 c'" .
  with e1 show ?thesis
    by (rule tel_extends_trans)
qed

lemma sat_track_loop_extends:
  assumes "sat_track_loop es c = Some c'" and "0 \<le> axis0rate c" and "0 \<le> axis1rate c"
  shows "tel_extends c c'"
  using assms
proof (induction es arbitrary: c)
  case Nil
  then show ?case by simp
next
  case (Cons e es)
  show ?case
  proof (cases "trackingsat e")
    case False
    with Cons.prems(1) show ?thesis
      by (auto simp: tel_extends_def tel_call_def split: if_splits)
  next
    case True
    with Cons.prems(1) obtain c1 where
      c1: "sat_track_cycle e c = Some c1" and rest: "sat_track_loop es c1 = Some c'"
      by (auto split: option.splits)
    have e1: "tel_extends c c1"
      using c1 Cons.prems(2,3) by (rule sat_track_cycle_extends)
    then have "0 \<le> axis0rate c1" "0 \<le> axis1rate c1"
      using Cons.prems(2,3) by (simp_all add: tel_extends_def)
    from Cons.IH [OF rest this] e1 show ?thesis
      by (blast intro: tel_extends_trans)
  qed
qed

lemma rate_within_member:
  assumes "list_all (rate_within L0 L1) new" and "MoveAxis axis rate \<in> set new"
  shows "(axis = 0 \<and> - L0 \<le> rate \<and> rate \<le> L0) \<or> (axis = 1 \<and> - L1 \<le> rate \<and> rate \<le> L1)"
proof -
  from assms have "rate_within L0 L1 (MoveAxis axis rate)"
    by (auto simp: list_all_iff)
  then show ?thesis
    by simp
qed

text \<open>
  C1. In one iteration of the tracking loop, whatever the branch (slew, ephemeris only,
  visual lock; alt-azimuth or equatorial), every rate passed to \<open>MoveAxis\<close> lies between
  minus and plus the maximum rate of its axis, for maximum rates that are not negative.
\<close>

theorem emitted_rates_within_axis_limits:
  assumes "sat_track_cycle e c = Some c'" and "0 \<le> axis0rate c" and "0 \<le> axis1rate c"
  shows "\<exists>new. tel_log c' = tel_log c @ new
           \<and> (\<forall>axis rate. MoveAxis axis rate \<in> set new \<longrightarrow>
                 (axis = 0 \<and> - axis0rate c \<le> rate \<and> rate \<le> axis0rate c)
                 \<or> (axis = 1 \<and> - axis1rate c \<le> rate \<and> rate \<le> axis1rate c))"
proof -
  from sat_track_cycle_extends [OF assms] obtain new where
    l: "tel_log c' = tel_log c @ new" and
    w: "list_all (rate_within (axis0rate c) (axis1rate c)) new"
    by (auto simp: tel_extends_def)
  from w have "\<forall>axis rate. MoveAxis axis rate \<in> set new \<longrightarrow>
                 (axis = 0 \<and> - axis0rate c \<le> rate \<and> rate \<le> axis0rate c)
                 \<or> (axis = 1 \<and> - axis1rate c \<le> rate \<and> rate \<le> axis1rate c)"
    by (blast dest: rate_within_member)
  with l show ?thesis
    by blast
qed

lemma ascom_lagging_cycle:
  "sat_track_cycle env_ascom_lagging controller0
   = Some (controller0\<lparr>cycle_i := 1, diffazlast := 20 / 3, diffaltlast := - 12,
                        tel_log := [MoveAxis 0 2, MoveAxis 1 (- 2)]\<rparr>)"
  by (simp add: sat_track_cycle_def follow_def follow_ephem_def follow_ascom_altaz_def
      env_ascom_lagging_def env0_def ephem0_def controller0_def degrees_def clamp_rate_def
      tel_call_def Let_def)

theorem emitted_rates_within_axis_limits_witness:
  "0 \<le> axis0rate controller0 \<and> 0 \<le> axis1rate controller0
   \<and> axis0rate controller0 = 2 \<and> axis1rate controller0 = 2
   \<and> (\<exists>c'. sat_track_cycle env_ascom_lagging controller0 = Some c'
            \<and> tel_log c' = tel_log controller0 @ [MoveAxis 0 2, MoveAxis 1 (- 2)]
            \<and> list_all (rate_within 2 2) [MoveAxis 0 2, MoveAxis 1 (- 2)])"
proof -
  let ?c' = "controller0\<lparr>cycle_i := 1, diffazlast := 20 / 3, diffaltlast := - 12,
                        tel_log := [MoveAxis 0 2, MoveAxis 1 (- 2)]\<rparr>"
  have r: "0 \<le> axis0rate controller0" "0 \<le> axis1rate controller0"
    by (simp_all add: controller0_def)
  have l: "axis0rate controller0 = 2" "axis1rate controller0 = 2" "tel_log controller0 = []"
    by (simp_all add: controller0_def)
  have run: "sat_track_cycle env_ascom_lagging controller0 = Some ?c'"
    by (rule ascom_lagging_cycle)
  from emitted_rates_within_axis_limits [OF run r] obtain new where
    n: "tel_log ?c' = tel_log controller0 @ new" and
    w: "\<forall>axis rate. MoveAxis axis rate \<in> set new \<longrightarrow>
                 (axis = 0 \<and> - axis0rate controller0 \<le> rate \<and> rate \<le> axis0rate controller0)
                 \<or> (axis = 1 \<and> - axis1rate controller0 \<le> rate \<and> rate \<le> axis1rate controller0)"
    by blast
  from n have new: "new = [MoveAxis 0 2, MoveAxis 1 (- 2)]"
    by (simp add: l)
  have "list_all (rate_within 2 2) [MoveAxis 0 2, MoveAxis 1 (- 2)]"
    by simp
  with new w run r l show ?thesis
    by simp
qed

subsection \<open>Pixel offset to sky delta\<close>

lemma objectdistance_radicand_nonneg:
  fixes h v a :: real
  shows "0 \<le> h\<^sup>2 + v\<^sup>2 - 2 * (v * h * cos a)"
proof -
  have c: "(cos a)\<^sup>2 \<le> 1"
    by (simp add: abs_square_le_1)
  have "h\<^sup>2 + v\<^sup>2 - 2 * (v * h * cos a) = (h - v * cos a)\<^sup>2 + v\<^sup>2 * (1 - (cos a)\<^sup>2)"
    by (simp add: power2_eq_square algebra_simps)
  moreover have "0 \<le> (h - v * cos a)\<^sup>2 + v\<^sup>2 * (1 - (cos a)\<^sup>2)"
    using c by (intro add_nonneg_nonneg mult_nonneg_nonneg) simp_all
  ultimately show ?thesis
    by simp
qed

lemma radians_degrees: "radians (degrees x) = x"
  by (simp add: radians_def degrees_def)

lemma degrees_pos: "0 < x \<Longrightarrow> 0 < degrees x"
  by (simp add: degrees_def)

lemma radians_90: "radians 90 = pi / 2"
  by (simp add: radians_def)

lemma horizon_quotient:
  fixes \<delta> \<kappa> :: real
  assumes "0 < \<delta>" and "\<delta> < pi" and "\<kappa>\<^sup>2 < 1"
  shows "\<bar>sin \<delta> * \<kappa>\<bar> < 1"
    and "0 < sqrt (1 - (sin \<delta> * \<kappa>)\<^sup>2)"
    and "\<bar>cos \<delta> / sqrt (1 - (sin \<delta> * \<kappa>)\<^sup>2)\<bar> < 1"
proof -
  have s: "0 < sin \<delta>"
    using assms(1,2) by (rule sin_gt_zero)
  then have s2: "0 < (sin \<delta>)\<^sup>2"
    by simp
  have one: "(sin \<delta>)\<^sup>2 + (cos \<delta>)\<^sup>2 = 1"
    by (rule sin_cos_squared_add)
  have "(sin \<delta>)\<^sup>2 * \<kappa>\<^sup>2 < (sin \<delta>)\<^sup>2 * 1"
    using s2 assms(3) by (rule mult_strict_left_mono [rotated])
  then have lt: "(sin \<delta> * \<kappa>)\<^sup>2 < (sin \<delta>)\<^sup>2"
    by (simp add: power_mult_distrib)
  have le1: "(sin \<delta>)\<^sup>2 \<le> 1"
    using one by (smt (verit) zero_le_power2)
  from lt le1 have x2: "(sin \<delta> * \<kappa>)\<^sup>2 < 1"
    by linarith
  then show "\<bar>sin \<delta> * \<kappa>\<bar> < 1"
    by (simp add: abs_square_less_1)
  from x2 show m: "0 < sqrt (1 - (sin \<delta> * \<kappa>)\<^sup>2)"
    by simp
  have "(cos \<delta>)\<^sup>2 < 1 - (sin \<delta> * \<kappa>)\<^sup>2"
    using one lt by linarith
  then have "sqrt ((cos \<delta>)\<^sup>2) < sqrt (1 - (sin \<delta> * \<kappa>)\<^sup>2)"
    by (rule real_sqrt_less_mono)
  then have "\<bar>cos \<delta>\<bar> < sqrt (1 - (sin \<delta> * \<kappa>)\<^sup>2)"
    by simp
  with m show "\<bar>cos \<delta> / sqrt (1 - (sin \<delta> * \<kappa>)\<^sup>2)\<bar> < 1"
    by simp
qed

lemma sky_delta_at_horizon:
  assumes "0 < radians (objectdistance p)" and "radians (objectdistance p) < pi"
    and "(cos (radians (objectangle p)))\<^sup>2 < 1"
  shows "\<exists>objectalt d. law_of_cosines_alt p 0 = Inr objectalt
           \<and> law_of_cosines_az p 0 objectalt = Inr d \<and> 0 < d
           \<and> sky_delta p 0 = Inr (objectalt, if \<bar>objectangle2 p\<bar> > 90 then - d else d)"
proof -
  define \<delta> where "\<delta> = radians (objectdistance p)"
  define \<kappa> where "\<kappa> = cos (radians (objectangle p))"
  define x where "x = sin \<delta> * \<kappa>"
  define q where "q = cos \<delta> / sqrt (1 - x\<^sup>2)"
  have x1: "\<bar>x\<bar> < 1" and m: "0 < sqrt (1 - x\<^sup>2)" and q1: "\<bar>q\<bar> < 1"
    using horizon_quotient [of \<delta> \<kappa>] assms
    unfolding \<delta>_def \<kappa>_def x_def q_def by simp_all
  have xb: "- 1 \<le> x" "x \<le> 1"
    using x1 by linarith+
  have qb: "- 1 \<le> q" "q \<le> 1" "q < 1"
    using q1 by linarith+
  have arg: "cos \<delta> * cos (radians (90 - 0)) + sin \<delta> * sin (radians (90 - 0)) * \<kappa> = x"
    by (simp add: radians_90 x_def)
  have alt: "law_of_cosines_alt p 0 = Inr (90 - degrees (arccos x))"
    unfolding law_of_cosines_alt_def \<delta>_def [symmetric] \<kappa>_def [symmetric] arg
    using xb by (simp add: py_acos_def)
  have sinx: "sin (arccos x) = sqrt (1 - x\<^sup>2)"
    using xb by (rule sin_arccos)
  have rback: "radians (90 - (90 - degrees (arccos x))) = arccos x"
    by (simp add: radians_degrees)
  have quot: "(cos \<delta> - cos (radians (90 - 0)) * cos (arccos x))
              / (sin (radians (90 - 0)) * sin (arccos x)) = q"
    by (simp add: radians_90 sinx q_def)
  have den: "sin (radians (90 - 0)) * sin (arccos x) \<noteq> 0"
    using m by (simp add: radians_90 sinx)
  have az: "law_of_cosines_az p 0 (90 - degrees (arccos x)) = Inr (degrees (arccos q))"
    unfolding law_of_cosines_az_def \<delta>_def [symmetric] rback py_div_def
    using den qb by (simp only: if_False quot sum.case py_acos_def) simp
  have "arccos 1 < arccos q"
    using qb by (intro arccos_less_arccos) simp_all
  then have pos: "0 < degrees (arccos q)"
    by (simp add: degrees_pos)
  show ?thesis
    using alt az pos by (simp add: sky_delta_def)
qed

lemma atan2_upper_left: "atan2 1 (- 1) = 3 * pi / 4"
  by (simp add: atan2_def arctan_minus arctan_one)

lemma degrees_three_quarter_pi: "degrees (3 * pi / 4) = 135"
  by (simp add: degrees_def)

lemma cos_radians_45: "cos (radians 45) = sqrt 2 / 2"
proof -
  have r: "radians 45 = pi / 4"
    by (simp add: radians_def)
  show ?thesis
    unfolding r by (rule cos_45)
qed

lemma object_polar_env_offset:
  "object_polar env_offset
   = \<lparr>objectangle = 45, objectangle2 = 135, objectdistance = sqrt (2 + sqrt 2)\<rparr>"
  by (simp add: object_polar_def env_offset_def env0_def Let_def atan2_upper_left
      degrees_three_quarter_pi cos_radians_45)

lemma sqrt_two_plus_sqrt_two: "0 < sqrt (2 + sqrt 2)" "sqrt (2 + sqrt 2) < 2"
proof -
  have "sqrt 2 < sqrt 4"
    by (rule real_sqrt_less_mono) simp
  then have s: "sqrt 2 < 2"
    by simp
  have p: "0 < sqrt 2"
    by simp
  from p have "0 < 2 + sqrt 2"
    by linarith
  then show "0 < sqrt (2 + sqrt 2)"
    by (simp only: real_sqrt_gt_0_iff)
  have "sqrt (2 + sqrt 2) < sqrt 4"
    using s by (intro real_sqrt_less_mono) simp
  then show "sqrt (2 + sqrt 2) < 2"
    by simp
qed

lemma env_offset_sky_delta:
  "\<exists>objectalt d. law_of_cosines_az (object_polar env_offset) 0 objectalt = Inr d \<and> 0 < d
       \<and> sky_delta (object_polar env_offset) 0 = Inr (objectalt, - d)"
proof -
  let ?p = "object_polar env_offset"
  have dist: "objectdistance ?p = sqrt (2 + sqrt 2)" and ang: "objectangle ?p = 45"
    and ang2: "objectangle2 ?p = 135"
    by (simp_all add: object_polar_env_offset)
  have d0: "0 < radians (objectdistance ?p)"
    unfolding dist using sqrt_two_plus_sqrt_two(1) by (simp add: radians_def)
  have "sqrt (2 + sqrt 2) * pi < 180 * pi"
    using sqrt_two_plus_sqrt_two(2) by (intro mult_strict_right_mono) simp_all
  then have d1: "radians (objectdistance ?p) < pi"
    unfolding dist by (simp add: radians_def)
  have k: "(cos (radians (objectangle ?p)))\<^sup>2 < 1"
    unfolding ang cos_radians_45 by (simp add: power_divide)
  from sky_delta_at_horizon [OF d0 d1 k] show ?thesis
    unfolding ang2 by auto
qed

lemma law_of_cosines_az_nonneg:
  assumes "law_of_cosines_az p alt objectalt = Inr d"
  shows "0 \<le> d"
  using assms
  by (auto simp: law_of_cosines_az_def py_div_def py_acos_def degrees_def arccos_lbound
      split: if_splits)

text \<open>
  C8, as the code has it. The azimuth-like delta of the law of cosines is a value
  \<open>d \<ge> 0\<close>, and the conversion returns \<open>- d\<close> exactly when \<open>\<bar>objectangle2\<bar> > 90\<close>, where
  \<open>objectangle2 = atan2(-dy, dx)\<close> in degrees is the angle before 90 degrees are
  subtracted; \<open>objectangle = objectangle2 - 90\<close> enters the formulas only.
\<close>

theorem azimuth_delta_negated_by_unshifted_angle:
  assumes "sky_delta (object_polar e) alt = Inr (objectalt, diffinaz)"
  shows "\<exists>d. law_of_cosines_az (object_polar e) alt objectalt = Inr d \<and> 0 \<le> d
           \<and> diffinaz = (if \<bar>objectangle2 (object_polar e)\<bar> > 90 then - d else d)
           \<and> objectangle2 (object_polar e)
               = degrees (atan2 (- 1 * ((targetY e - mainviewY e) * imagescale e))
                                ((targetX e - mainviewX e) * imagescale e))
           \<and> objectangle (object_polar e) = objectangle2 (object_polar e) - 90"
proof -
  from assms obtain d where
    az: "law_of_cosines_az (object_polar e) alt objectalt = Inr d" and
    r: "diffinaz = (if \<bar>objectangle2 (object_polar e)\<bar> > 90 then - d else d)"
    by (auto simp: sky_delta_def split: sum.splits)
  have "0 \<le> d"
    using az by (rule law_of_cosines_az_nonneg)
  moreover have "objectangle2 (object_polar e)
               = degrees (atan2 (- 1 * ((targetY e - mainviewY e) * imagescale e))
                                ((targetX e - mainviewX e) * imagescale e))"
    and "objectangle (object_polar e) = objectangle2 (object_polar e) - 90"
    by (simp_all add: object_polar_def Let_def)
  ultimately show ?thesis
    using az r by blast
qed

theorem azimuth_delta_negated_by_unshifted_angle_witness:
  "\<exists>objectalt d. sky_delta (object_polar env_offset) 0 = Inr (objectalt, - d)
      \<and> law_of_cosines_az (object_polar env_offset) 0 objectalt = Inr d \<and> 0 \<le> d
      \<and> - d = (if \<bar>objectangle2 (object_polar env_offset)\<bar> > 90 then - d else d)
      \<and> objectangle2 (object_polar env_offset) = 135"
proof -
  from env_offset_sky_delta obtain objectalt d0 where
    run: "sky_delta (object_polar env_offset) 0 = Inr (objectalt, - d0)"
    by blast
  from azimuth_delta_negated_by_unshifted_angle [OF run] obtain d where
    az: "law_of_cosines_az (object_polar env_offset) 0 objectalt = Inr d" and "0 \<le> d" and
    r: "- d0 = (if \<bar>objectangle2 (object_polar env_offset)\<bar> > 90 then - d else d)"
    by blast
  have a2: "objectangle2 (object_polar env_offset) = 135"
    by (simp add: object_polar_env_offset)
  from r have "d0 = d"
    unfolding a2 by simp
  with run az \<open>0 \<le> d\<close> a2 show ?thesis
    by auto
qed

text \<open>
  C8, as the claim states it, fails. The target one pixel left of and one pixel above the
  frame centre, at one degree per pixel, the mount on the horizon: the shifted angle is
  45 degrees, not above 90, and the returned delta is \<open>- d\<close> with \<open>d > 0\<close>: negated.
\<close>

theorem azimuth_delta_negated_at_angle_45:
  "\<exists>objectalt d. sky_delta (object_polar env_offset) 0 = Inr (objectalt, - d)
      \<and> law_of_cosines_az (object_polar env_offset) 0 objectalt = Inr d \<and> 0 < d
      \<and> objectangle (object_polar env_offset) = 45
      \<and> \<not> \<bar>objectangle (object_polar env_offset)\<bar> > 90"
proof -
  have "objectangle (object_polar env_offset) = 45"
    by (simp add: object_polar_env_offset)
  with env_offset_sky_delta show ?thesis
    by auto
qed

subsection \<open>Calibration estimator\<close>

lemma calib_loop_ascom_cancel:
  assumes "\<exists>ob \<in> set obs. \<not> obs_calibratestart ob"
  shows "\<exists>d c'. calib_loop_ascom rate sx sy d0 obs c = Some (d, c')"
  using assms
proof (induction obs arbitrary: d0 c)
  case Nil
  then show ?case by simp
next
  case (Cons ob obs)
  show ?case
  proof (cases "d0 < 100 \<and> obs_calibratestart ob")
    case True
    with Cons.prems have "\<exists>ob \<in> set obs. \<not> obs_calibratestart ob"
      by auto
    from Cons.IH [OF this] True show ?thesis
      by simp
  next
    case False
    then show ?thesis
      by auto
  qed
qed

lemma calib_loop_ascom_threshold:
  "\<not> d0 < 100 \<Longrightarrow> calib_loop_ascom rate sx sy d0 obs c = Some (d0, c)"
  by (cases obs) simp_all

lemma calibrate_ascom_zeroes_axis:
  assumes "calibrate_ascom k e1 e2 c = Some (c', out)"
    and "mounttype e1 = ''AltAz'' \<or> mounttype e1 = ''Eq''"
  shows "tel_log c' \<noteq> [] \<and> last (tel_log c') = MoveAxis 1 0"
  using assms
  by (auto simp: calibrate_ascom_def Let_def tel_call_def split: option.splits sum.splits if_splits)

lemma calib_loop_lx200_stationary:
  "calib_loop_lx200 move sx sy 0
     (replicate n \<lparr>obs_targetX = sx, obs_targetY = sy, obs_calibratestart = b\<rparr>) c = None"
  by (induction n arbitrary: c) simp_all

text \<open>
  C5. The claim: a cancellation ends the motion loop of the calibration when the
  displacement never reaches 100 pixels, on both transports. The code on the LX200: the
  loop tests \<open>distmoved < 100\<close> only (lines 1125 and 1144). With a target that does not
  move and \<open>calibratestart\<close> cleared at every poll, the routine has not returned after any
  number of polls. The ASCOM loop also tests \<open>calibratestart\<close> (line 1037) and ends at
  the first poll that finds it cleared.
\<close>

theorem lx200_calibration_ignores_cancellation:
  "\<forall>n. set_calibration False
         (calib0\<lparr>polls := replicate n
                   \<lparr>obs_targetX = 320, obs_targetY = 100, obs_calibratestart = False\<rparr>\<rparr>)
         (env0\<lparr>objectfollow := True, targetX := 320, targetY := 100\<rparr>)
         (env0\<lparr>objectfollow := True, targetX := 320, targetY := 100\<rparr>)
         (controller0\<lparr>ser_in := [(0, 0, 0), (0, 0, 0), (0, 0, 0), (0, 0, 0)]\<rparr>) = None"
  by (simp add: set_calibration_def calibrate_lx200_def calib0_def env0_def controller0_def
      LX200_alt_degrees_def LX200_az_degrees_def lx200_query_def calib_loop_lx200_stationary)

lemma ascom_calibration_cancelled_example:
  "\<exists>c'. set_calibration False
         (calib0\<lparr>polls := [\<lparr>obs_targetX = 320, obs_targetY = 100, obs_calibratestart = True\<rparr>,
                             \<lparr>obs_targetX = 320, obs_targetY = 100, obs_calibratestart = False\<rparr>]\<rparr>)
         (env0\<lparr>telescopetype := ''ASCOM'', objectfollow := True, targetX := 320, targetY := 100\<rparr>)
         (env0\<lparr>telescopetype := ''ASCOM'', objectfollow := True, targetX := 320, targetY := 100\<rparr>)
         controller0 = Some (c', Inl ZeroDivisionError)
       \<and> tel_log c' = [MoveAxis 1 (1 / 10), MoveAxis 1 (1 / 10), MoveAxis 1 0]"
  by (simp add: set_calibration_def calibrate_ascom_def calib0_def env0_def controller0_def
      tel_call_def calib_scale_def separation_between_coordinates_def py_acos_def py_div_def
      radians_def Let_def)

end
